theory Spec2Isabelle
  imports Main "HOL-Library.Finite_Map"
begin

section \<open>Bildkompressor: record store, storage directory, ingestion and compression\<close>

text \<open>
  A shallow embedding of \<^verbatim>\<open>Bildkompressor.py\<close>. The SQLite table \<^verbatim>\<open>images\<close> is a list
  of rows with the \<^verbatim>\<open>AUTOINCREMENT\<close> counter beside it, the directory
  \<^verbatim>\<open>stored_images\<close> and the rest of the disk are a finite map from paths to file
  contents, and the message boxes the application shows are collected in a list. Every
  Python exception that the code can meet is a value of type \<open>error\<close>.
\<close>

subsection \<open>Strings and paths (Python's \<^verbatim>\<open>str\<close> and \<^verbatim>\<open>posixpath\<close>)\<close>

definition IMAGES_DIR :: string where
  "IMAGES_DIR = ''stored_images''"

text \<open>\<^verbatim>\<open>str(i)\<close> for a non-negative integer: its decimal digits.\<close>

fun str :: "nat \<Rightarrow> string" where
  "str n = (if n < 10 then [''0123456789'' ! n]
            else str (n div 10) @ [''0123456789'' ! (n mod 10)])"

declare str.simps [simp del]

text \<open>\<^verbatim>\<open>s.lower()\<close>, on the ASCII letters.\<close>

definition lower_char :: "char \<Rightarrow> char" where
  "lower_char c =
     (case map_of (zip ''ABCDEFGHIJKLMNOPQRSTUVWXYZ'' ''abcdefghijklmnopqrstuvwxyz'') c of
        Some d \<Rightarrow> d
      | None \<Rightarrow> c)"

definition lower :: "string \<Rightarrow> string" where
  "lower s = map lower_char s"

text \<open>\<^verbatim>\<open>p.rfind(c)\<close>: the index of the last occurrence of \<open>c\<close>, or \<open>-1\<close>.\<close>

definition rfind :: "string \<Rightarrow> char \<Rightarrow> int" where
  "rfind p c =
     (if c \<in> set p
      then int (length p) - int (length (takeWhile (\<lambda>x. x \<noteq> c) (rev p))) - 1
      else - 1)"

text \<open>\<^verbatim>\<open>os.path.basename(p)\<close>: \<^verbatim>\<open>p[p.rfind('/') + 1:]\<close>.\<close>

definition basename :: "string \<Rightarrow> string" where
  "basename p = drop (nat (rfind p CHR ''/'' + 1)) p"

text \<open>
  \<^verbatim>\<open>os.path.splitext(p)\<close>: the extension starts at the last dot, when that dot comes
  after the last separator and some character between the two is not a dot.
\<close>

definition splitext :: "string \<Rightarrow> string \<times> string" where
  "splitext p =
     (let sepIndex = rfind p CHR ''/'';
          dotIndex = rfind p CHR ''.''
      in if dotIndex > sepIndex \<and>
            list_ex (\<lambda>c. c \<noteq> CHR ''.'')
              (take (nat (dotIndex - (sepIndex + 1))) (drop (nat (sepIndex + 1)) p))
         then (take (nat dotIndex) p, drop (nat dotIndex) p)
         else (p, []))"

text \<open>\<^verbatim>\<open>os.path.join(a, b)\<close>: an absolute \<open>b\<close> replaces \<open>a\<close>.\<close>

definition join :: "string \<Rightarrow> string \<Rightarrow> string" where
  "join a b =
     (if b \<noteq> [] \<and> hd b = CHR ''/'' then b
      else if a = [] \<or> last a = CHR ''/'' then a @ b
      else a @ ''/'' @ b)"

subsection \<open>Errors and messages\<close>

datatype error =
    FileNotFoundError
  | PermissionError
  | UnidentifiedImageError
  | ConvertError
  | EncodeError
  | IntegrityError

text \<open>The message boxes of \<^verbatim>\<open>dropEvent\<close> and \<^verbatim>\<open>compress_all_images\<close>.\<close>

datatype message =
    No_images_dropped
  | Could_not_add string error
  | Images_added nat
  | No_images_to_compress
  | Failed_to_compress string error
  | Compression_complete nat

subsection \<open>The table \<^verbatim>\<open>images\<close> and its SQL statements\<close>

text \<open>
  The table of \<^verbatim>\<open>_create_table\<close>: \<^verbatim>\<open>id INTEGER PRIMARY KEY AUTOINCREMENT\<close>,
  \<^verbatim>\<open>filename TEXT NOT NULL\<close>, \<^verbatim>\<open>filepath TEXT NOT NULL UNIQUE\<close>. \<open>seq\<close> is the
  largest id ever given out, which \<^verbatim>\<open>AUTOINCREMENT\<close> keeps.
\<close>

record row =
  row_id :: nat
  filename :: string
  filepath :: string

record database =
  rows :: "row list"
  seq :: nat

definition empty_db :: database where
  "empty_db = \<lparr>rows = [], seq = 0\<rparr>"

definition next_id :: "database \<Rightarrow> nat" where
  "next_id d = Suc (fold max (map row_id (rows d)) (seq d))"

text \<open>
  \<^verbatim>\<open>INSERT INTO images (filename, filepath) VALUES (?,?)\<close>: fails on the
  \<^verbatim>\<open>UNIQUE\<close> column when a row already has the path, and otherwise gives the new
  row the next id (\<^verbatim>\<open>lastrowid\<close>).
\<close>

definition sql_insert :: "database \<Rightarrow> string \<Rightarrow> string \<Rightarrow> error + database \<times> nat" where
  "sql_insert d fname fpath =
     (if list_ex (\<lambda>r. filepath r = fpath) (rows d) then Inl IntegrityError
      else let i = next_id d
           in Inr (d\<lparr>rows := rows d @ [\<lparr>row_id = i, filename = fname, filepath = fpath\<rparr>],
                     seq := i\<rparr>, i))"

text \<open>\<^verbatim>\<open>SELECT id, filename, filepath FROM images ORDER BY id DESC\<close>.\<close>

definition sql_select_all :: "database \<Rightarrow> row list" where
  "sql_select_all d = rev (sort_key row_id (rows d))"

text \<open>
  \<^verbatim>\<open>UPDATE images SET filepath=? WHERE id=?\<close>: when the row exists and another row
  holds the new path, the \<^verbatim>\<open>UNIQUE\<close> column makes the statement fail and the table
  is as before. An id that matches no row updates no row.
\<close>

definition sql_update :: "database \<Rightarrow> nat \<Rightarrow> string \<Rightarrow> error + database" where
  "sql_update d image_id new_filepath =
     (if list_ex (\<lambda>r. row_id r = image_id) (rows d) \<and>
         list_ex (\<lambda>r. row_id r \<noteq> image_id \<and> filepath r = new_filepath) (rows d)
      then Inl IntegrityError
      else Inr (d\<lparr>rows := map (\<lambda>r. if row_id r = image_id
                                     then r\<lparr>filepath := new_filepath\<rparr> else r) (rows d)\<rparr>))"

text \<open>\<^verbatim>\<open>DELETE FROM images WHERE id=?\<close>.\<close>

definition sql_delete :: "database \<Rightarrow> nat \<Rightarrow> database" where
  "sql_delete d image_id = d\<lparr>rows := filter (\<lambda>r. row_id r \<noteq> image_id) (rows d)\<rparr>"

text \<open>
  What the schema guarantees of every table the application can reach: ids are positive,
  unique and not above the counter, and no two rows share a path.
\<close>

definition db_ok :: "database \<Rightarrow> bool" where
  "db_ok d \<longleftrightarrow>
     distinct (map row_id (rows d)) \<and>
     distinct (map filepath (rows d)) \<and>
     list_all (\<lambda>r. 0 < row_id r \<and> row_id r \<le> seq d) (rows d)"

subsection \<open>The state of the application\<close>

text \<open>
  \<open>fs\<close> maps the path of every existing file to its bytes; \<open>undeletable\<close> lists the
  paths whose removal the operating system refuses; \<open>db\<close> is the table; \<open>images\<close> is
  the list that \<^verbatim>\<open>ImageTableModel.refresh\<close> caches for the view; \<open>ui\<close> collects the
  message boxes shown so far.
\<close>

record world =
  fs :: "(string, string) fmap"
  undeletable :: "string list"
  db :: database
  images :: "row list"
  ui :: "message list"

definition path_exists :: "(string, string) fmap \<Rightarrow> string \<Rightarrow> bool" where
  "path_exists files p \<longleftrightarrow> fmlookup files p \<noteq> None"

text \<open>\<^verbatim>\<open>shutil.copy2(src, dst)\<close>: raises when the source cannot be read.\<close>

definition copy2 :: "world \<Rightarrow> string \<Rightarrow> string \<Rightarrow> error + world" where
  "copy2 w src dst =
     (case fmlookup (fs w) src of
        None \<Rightarrow> Inl FileNotFoundError
      | Some data \<Rightarrow> Inr (w\<lparr>fs := fmupd dst data (fs w)\<rparr>))"

text \<open>\<^verbatim>\<open>os.remove(path)\<close>.\<close>

definition os_remove :: "world \<Rightarrow> string \<Rightarrow> error + world" where
  "os_remove w p =
     (if \<not> path_exists (fs w) p then Inl FileNotFoundError
      else if p \<in> set (undeletable w) then Inl PermissionError
      else Inr (w\<lparr>fs := fmdrop p (fs w)\<rparr>))"

subsection \<open>Class \<^verbatim>\<open>ImageDatabase\<close>\<close>

text \<open>
  \<^verbatim>\<open>add_image\<close> catches the \<^verbatim>\<open>IntegrityError\<close> of the insert and returns
  \<^verbatim>\<open>None\<close>; otherwise it returns \<^verbatim>\<open>lastrowid\<close>.
\<close>

definition add_image :: "world \<Rightarrow> string \<Rightarrow> string \<Rightarrow> world \<times> nat option" where
  "add_image w fname fpath =
     (case sql_insert (db w) fname fpath of
        Inl e \<Rightarrow> (w, None)
      | Inr (d, i) \<Rightarrow> (w\<lparr>db := d\<rparr>, Some i))"

definition get_all_images :: "world \<Rightarrow> row list" where
  "get_all_images w = sql_select_all (db w)"

text \<open>\<^verbatim>\<open>update_image_path\<close> and \<^verbatim>\<open>delete_image\<close> catch nothing.\<close>

definition update_image_path :: "world \<Rightarrow> nat \<Rightarrow> string \<Rightarrow> error + world" where
  "update_image_path w image_id new_filepath =
     (case sql_update (db w) image_id new_filepath of
        Inl e \<Rightarrow> Inl e
      | Inr d \<Rightarrow> Inr (w\<lparr>db := d\<rparr>))"

definition delete_image :: "world \<Rightarrow> nat \<Rightarrow> error + world" where
  "delete_image w image_id = Inr (w\<lparr>db := sql_delete (db w) image_id\<rparr>)"

text \<open>\<^verbatim>\<open>ImageTableModel.refresh\<close>.\<close>

definition refresh :: "world \<Rightarrow> world" where
  "refresh w = w\<lparr>images := get_all_images w\<rparr>"

subsection \<open>Class \<^verbatim>\<open>DragDropWidget\<close>: ingestion\<close>

datatype url = LocalFile string | OtherUrl string

definition supported_exts :: "string list" where
  "supported_exts = [''.png'', ''.jpg'', ''.jpeg'', ''.bmp'', ''.gif'', ''.tiff'', ''.webp'']"

text \<open>The first loop of \<^verbatim>\<open>dropEvent\<close>: the local files with a supported extension.\<close>

fun dropped_files :: "url list \<Rightarrow> string list" where
  "dropped_files [] = []"
| "dropped_files (LocalFile p # urls) =
     (if lower (snd (splitext p)) \<in> set supported_exts
      then p # dropped_files urls else dropped_files urls)"
| "dropped_files (OtherUrl u # urls) = dropped_files urls"

text \<open>The name tried with suffix \<open>i\<close>: \<^verbatim>\<open>os.path.join(IMAGES_DIR, f"{base}_{i}{ext}")\<close>.\<close>

definition suffixed :: "string \<Rightarrow> string \<Rightarrow> nat \<Rightarrow> string" where
  "suffixed base ext i = join IMAGES_DIR (base @ ''_'' @ str i @ ext)"

text \<open>
  A number from which on no suffixed name exists; it only measures the loop below.
\<close>

definition suffix_bound :: "(string, string) fmap \<Rightarrow> string \<Rightarrow> string \<Rightarrow> nat" where
  "suffix_bound files base ext =
     Suc (Max (insert 0 {j. suffixed base ext j \<in> fmdom' files}))"

text \<open>
  The loop \<^verbatim>\<open>while os.path.exists(target_path): target_path = ...; i += 1\<close>, on the
  variables \<open>target_path\<close> and \<open>i\<close>.
\<close>

function unique_target :: "(string, string) fmap \<Rightarrow> string \<Rightarrow> string \<Rightarrow> string \<Rightarrow> nat \<Rightarrow> string" where
  "unique_target files base ext target_path i =
     (if path_exists files target_path
      then unique_target files base ext (suffixed base ext i) (i + 1)
      else target_path)"
  by pat_completeness auto

text \<open>
  The path a dropped file \<open>f\<close> is copied to: \<^verbatim>\<open>IMAGES_DIR/filename\<close> when free, the
  first free suffixed name otherwise.
\<close>

definition place_target :: "world \<Rightarrow> string \<Rightarrow> string" where
  "place_target w f =
     (let fname = basename f;
          target_path = join IMAGES_DIR fname;
          (base, ext) = splitext fname
      in unique_target (fs w) base ext target_path 1)"

text \<open>
  The body of the \<^verbatim>\<open>try\<close> for one file, on the state and \<open>added_count\<close>: the state
  and the count where it stopped, and the exception if one was raised. An id counts when
  it is truthy, so neither \<^verbatim>\<open>None\<close> nor 0.
\<close>

definition add_body :: "string \<Rightarrow> world \<times> nat \<Rightarrow> (world \<times> nat) \<times> error option" where
  "add_body f s =
     (case s of (w, added_count) \<Rightarrow>
        let target_path = place_target w f in
        (case copy2 w f target_path of
           Inl e \<Rightarrow> ((w, added_count), Some e)
         | Inr w1 \<Rightarrow>
           (case add_image w1 (basename target_path) target_path of
              (w2, None) \<Rightarrow> ((w2, added_count), None)
            | (w2, Some i) \<Rightarrow>
                ((w2, if i \<noteq> 0 then added_count + 1 else added_count), None))))"

text \<open>One turn of \<^verbatim>\<open>for f in files\<close>: the body, and the handler's warning.\<close>

definition add_file :: "string \<Rightarrow> world \<times> nat \<Rightarrow> world \<times> nat" where
  "add_file f s =
     (case add_body f s of
        (s', None) \<Rightarrow> s'
      | ((w', n), Some e) \<Rightarrow> (w'\<lparr>ui := ui w' @ [Could_not_add (basename f) e]\<rparr>, n))"

fun add_files :: "string list \<Rightarrow> world \<times> nat \<Rightarrow> world \<times> nat" where
  "add_files [] s = s"
| "add_files (f # files) s = add_files files (add_file f s)"

definition dropEvent :: "url list \<Rightarrow> world \<Rightarrow> world" where
  "dropEvent urls w =
     (let files = dropped_files urls in
      if files = [] then w\<lparr>ui := ui w @ [No_images_dropped]\<rparr>
      else (case add_files files (w, 0) of
              (w', added_count) \<Rightarrow>
                (refresh w')\<lparr>ui := ui w' @ [Images_added added_count]\<rparr>))"

subsection \<open>The image library\<close>

text \<open>
  Pillow is not part of the repository: the operations that the code calls are
  parameters. \<open>pil_open\<close> decodes the bytes of a file, \<open>pil_mode\<close> is \<^verbatim>\<open>img.mode\<close>,
  \<open>pil_convert\<close> is \<^verbatim>\<open>img.convert(mode)\<close> and \<open>pil_save\<close> gives the bytes that
  \<^verbatim>\<open>img.save(path, format=..., **save_kwargs)\<close> writes; \<open>None\<close> is a raised
  exception. \<^verbatim>\<open>Image.save\<close> opens the target for writing before the encoder runs, so
  a save that raises may have changed the target: \<open>pil_save_failed\<close> gives what is at
  the target path afterwards (\<open>None\<close>: no file), from what was there before.
\<close>

datatype pyval = PyInt int | PyBool bool

record 'img pil =
  pil_open :: "string \<Rightarrow> 'img option"
  pil_mode :: "'img \<Rightarrow> string"
  pil_convert :: "'img \<Rightarrow> string \<Rightarrow> 'img option"
  pil_save :: "'img \<Rightarrow> string \<Rightarrow> (string \<times> pyval) list \<Rightarrow> string option"
  pil_save_failed ::
    "'img \<Rightarrow> string \<Rightarrow> (string \<times> pyval) list \<Rightarrow> string option \<Rightarrow> string option"

text \<open>\<^verbatim>\<open>Image.open(filepath)\<close>.\<close>

definition image_open :: "'img pil \<Rightarrow> world \<Rightarrow> string \<Rightarrow> error + 'img" where
  "image_open pil w path =
     (case fmlookup (fs w) path of
        None \<Rightarrow> Inl FileNotFoundError
      | Some data \<Rightarrow>
        (case pil_open pil data of
           None \<Rightarrow> Inl UnidentifiedImageError
         | Some img \<Rightarrow> Inr img))"

text \<open>
  Pillow's table of modes: the number of bands of each mode, and the modes that hold
  colour in several bands.
\<close>

definition mode_bands :: "string \<Rightarrow> nat option" where
  "mode_bands = map_of
     [(''1'', 1), (''L'', 1), (''P'', 1), (''RGB'', 3), (''RGBA'', 4), (''CMYK'', 4),
      (''YCbCr'', 3), (''LAB'', 3), (''HSV'', 3), (''I'', 1), (''F'', 1), (''LA'', 2),
      (''I;16'', 1), (''I;16B'', 1)]"

definition colour_modes :: "string list" where
  "colour_modes = [''RGB'', ''RGBA'', ''CMYK'', ''YCbCr'', ''LAB'', ''HSV'']"

subsection \<open>Class \<^verbatim>\<open>MainWindow\<close>: compression\<close>

record options =
  quality :: int
  bit_depth :: int
  format :: string

text \<open>
  The mode that the bit-depth branches pass to \<^verbatim>\<open>img.convert\<close>, \<open>None\<close> where
  the image is left as it is.
\<close>

definition convert_mode :: "int \<Rightarrow> string \<Rightarrow> string option" where
  "convert_mode depth mode =
     (if depth = 1 then Some ''1''
      else if depth = 8 then
        (if mode \<noteq> ''RGB'' \<and> mode \<noteq> ''RGBA'' then Some ''L'' else Some ''RGB'')
      else if depth = 16 then
        (if mode \<in> set [''I;16'', ''I;16B''] then None else Some ''I;16'')
      else None)"

definition convert_bit_depth :: "'img pil \<Rightarrow> int \<Rightarrow> 'img \<Rightarrow> 'img option" where
  "convert_bit_depth pil depth img =
     (case convert_mode depth (pil_mode pil img) of
        None \<Rightarrow> Some img
      | Some m \<Rightarrow> pil_convert pil img m)"

definition save_kwargs :: "options \<Rightarrow> (string \<times> pyval) list" where
  "save_kwargs opts =
     (if format opts = ''JPEG''
      then [(''quality'', PyInt (quality opts)), (''optimize'', PyBool True)]
      else if format opts = ''WEBP''
      then [(''quality'', PyInt (quality opts)), (''method'', PyInt 6)]
      else [])"

text \<open>
  \<^verbatim>\<open>os.path.join(IMAGES_DIR, f"{base}_compressed.{ext}")\<close> with \<open>base\<close> from the
  record's file name and \<open>ext\<close> the format in lower case.
\<close>

definition new_filepath :: "options \<Rightarrow> string \<Rightarrow> string" where
  "new_filepath opts fname =
     join IMAGES_DIR (fst (splitext fname) @ ''_compressed.'' @ lower (format opts))"

text \<open>The inner \<^verbatim>\<open>try: os.remove(filepath) except Exception: pass\<close>.\<close>

definition remove_quietly :: "world \<Rightarrow> string \<Rightarrow> world" where
  "remove_quietly w p = (case os_remove w p of Inl e \<Rightarrow> w | Inr w' \<Rightarrow> w')"

text \<open>What a save that raised leaves at its target path \<open>p\<close>.\<close>

definition write_partial :: "world \<Rightarrow> string \<Rightarrow> string option \<Rightarrow> world" where
  "write_partial w p left =
     (case left of
        None \<Rightarrow> w\<lparr>fs := fmdrop p (fs w)\<rparr>
      | Some data \<Rightarrow> w\<lparr>fs := fmupd p data (fs w)\<rparr>)"

text \<open>
  The body of the \<^verbatim>\<open>try\<close> for one record: the state where it stopped, and the
  exception if one was raised.
\<close>

definition compress_body :: "'img pil \<Rightarrow> options \<Rightarrow> row \<Rightarrow> world \<Rightarrow> world \<times> error option" where
  "compress_body pil opts r w =
     (case image_open pil w (filepath r) of
        Inl e \<Rightarrow> (w, Some e)
      | Inr img \<Rightarrow>
        (case convert_bit_depth pil (bit_depth opts) img of
           None \<Rightarrow> (w, Some ConvertError)
         | Some img' \<Rightarrow>
           (case pil_save pil img' (format opts) (save_kwargs opts) of
              None \<Rightarrow>
                (write_partial w (new_filepath opts (filename r))
                   (pil_save_failed pil img' (format opts) (save_kwargs opts)
                      (fmlookup (fs w) (new_filepath opts (filename r)))),
                 Some EncodeError)
            | Some data \<Rightarrow>
              let w1 = w\<lparr>fs := fmupd (new_filepath opts (filename r)) data (fs w)\<rparr> in
              if filepath r \<noteq> new_filepath opts (filename r) then
                let w2 = remove_quietly w1 (filepath r) in
                (case update_image_path w2 (row_id r) (new_filepath opts (filename r)) of
                   Inl e \<Rightarrow> (w2, Some e)
                 | Inr w3 \<Rightarrow> (w3, None))
              else (w1, None))))"

text \<open>One turn of the loop over the records: the body, and the handler's warning.\<close>

definition compress_one :: "'img pil \<Rightarrow> options \<Rightarrow> row \<Rightarrow> world \<Rightarrow> world" where
  "compress_one pil opts r w =
     (case compress_body pil opts r w of
        (w', None) \<Rightarrow> w'
      | (w', Some e) \<Rightarrow> w'\<lparr>ui := ui w' @ [Failed_to_compress (filename r) e]\<rparr>)"

fun compress_loop :: "'img pil \<Rightarrow> options \<Rightarrow> row list \<Rightarrow> world \<Rightarrow> world" where
  "compress_loop pil opts [] w = w"
| "compress_loop pil opts (r # rs) w = compress_loop pil opts rs (compress_one pil opts r w)"

definition compress_all_images :: "'img pil \<Rightarrow> options \<Rightarrow> world \<Rightarrow> world" where
  "compress_all_images pil opts w =
     (let imgs = get_all_images w;
          total = length imgs
      in if total = 0 then w\<lparr>ui := ui w @ [No_images_to_compress]\<rparr>
         else let w' = compress_loop pil opts imgs w
              in (refresh w')\<lparr>ui := ui w' @ [Compression_complete total]\<rparr>)"

subsection \<open>Example states\<close>

text \<open>
  A stand-in for the image library: an image is a mode and its pixels, \<^verbatim>\<open>junk\<close> does
  not decode, \<^verbatim>\<open>grey pixels\<close> decodes to a greyscale image and every other file to
  an RGB image, every conversion succeeds, and saving fails for a 16-bit image written
  as JPEG; the failed save leaves a target that existed empty and removes one it created.
\<close>

definition toy_pil :: "(string \<times> string) pil" where
  "toy_pil =
     \<lparr>pil_open = (\<lambda>data. if data = ''junk'' then None
                          else if data = ''grey pixels'' then Some (''L'', data)
                          else Some (''RGB'', data)),
      pil_mode = fst,
      pil_convert = (\<lambda>img m. Some (m, snd img)),
      pil_save = (\<lambda>img fmt kw.
         if fst img = ''I;16'' \<and> fmt = ''JPEG'' then None
         else Some (fmt @ '' '' @ fst img @ '' '' @ snd img)),
      pil_save_failed = (\<lambda>img fmt kw old.
         case old of None \<Rightarrow> None | Some data \<Rightarrow> Some [])\<rparr>"

text \<open>Two records whose file names differ in the extension only.\<close>

definition two_records_world :: world where
  "two_records_world =
     \<lparr>fs = fmap_of_list [(''stored_images/photo.png'', ''png pixels''),
                          (''stored_images/photo.bmp'', ''bmp pixels'')],
      undeletable = [],
      db = \<lparr>rows = [\<lparr>row_id = 1, filename = ''photo.png'',
                       filepath = ''stored_images/photo.png''\<rparr>,
                     \<lparr>row_id = 2, filename = ''photo.bmp'',
                       filepath = ''stored_images/photo.bmp''\<rparr>],
            seq = 2\<rparr>,
      images = [], ui = []\<rparr>"

text \<open>
  The directory holds \<^verbatim>\<open>photo.png\<close>, and two other files of that name wait
  elsewhere.
\<close>

definition photo_world :: world where
  "photo_world =
     \<lparr>fs = fmap_of_list [(''stored_images/photo.png'', ''old''),
                          (''/a/photo.png'', ''first''),
                          (''/b/photo.png'', ''second'')],
      undeletable = [], db = empty_db, images = [], ui = []\<rparr>"

text \<open>A record whose file has been removed behind the application's back.\<close>

definition orphan_world :: world where
  "orphan_world =
     \<lparr>fs = fmap_of_list [(''/home/u/a.png'', ''new'')],
      undeletable = [],
      db = \<lparr>rows = [\<lparr>row_id = 1, filename = ''a.png'', filepath = ''stored_images/a.png''\<rparr>],
            seq = 1\<rparr>,
      images = [], ui = []\<rparr>"

text \<open>Three records; the file of the second is missing.\<close>

definition three_records_world :: world where
  "three_records_world =
     \<lparr>fs = fmap_of_list [(''stored_images/a.png'', ''pixels of a''),
                          (''stored_images/c.png'', ''pixels of c'')],
      undeletable = [],
      db = \<lparr>rows = [\<lparr>row_id = 1, filename = ''a.png'', filepath = ''stored_images/a.png''\<rparr>,
                     \<lparr>row_id = 2, filename = ''b.png'', filepath = ''stored_images/b.png''\<rparr>,
                     \<lparr>row_id = 3, filename = ''c.png'', filepath = ''stored_images/c.png''\<rparr>],
            seq = 3\<rparr>,
      images = [], ui = []\<rparr>"

text \<open>One record whose file the operating system refuses to remove.\<close>

definition locked_world :: world where
  "locked_world =
     \<lparr>fs = fmap_of_list [(''stored_images/photo.png'', ''png pixels'')],
      undeletable = [''stored_images/photo.png''],
      db = \<lparr>rows = [\<lparr>row_id = 1, filename = ''photo.png'',
                       filepath = ''stored_images/photo.png''\<rparr>],
            seq = 1\<rparr>,
      images = [], ui = []\<rparr>"

definition photo_record :: row where
  "photo_record =
     \<lparr>row_id = 1, filename = ''photo.png'', filepath = ''stored_images/photo.png''\<rparr>"

definition jpeg_opts :: options where
  "jpeg_opts = \<lparr>quality = 80, bit_depth = 8, format = ''JPEG''\<rparr>"

definition deep_opts :: options where
  "deep_opts = \<lparr>quality = 80, bit_depth = 16, format = ''JPEG''\<rparr>"

definition bmp_record :: row where
  "bmp_record =
     \<lparr>row_id = 2, filename = ''photo.bmp'', filepath = ''stored_images/photo.bmp''\<rparr>"

definition missing_record :: row where
  "missing_record =
     \<lparr>row_id = 2, filename = ''b.png'', filepath = ''stored_images/b.png''\<rparr>"

definition webp_opts :: options where
  "webp_opts = \<lparr>quality = 60, bit_depth = 1, format = ''WEBP''\<rparr>"

definition png_opts :: options where
  "png_opts = \<lparr>quality = 60, bit_depth = 8, format = ''PNG''\<rparr>"

text \<open>
  A record that an earlier compression to JPEG has given the path
  \<^verbatim>\<open>photo_compressed.jpeg\<close>; its file is a greyscale image.
\<close>

definition recompressed_record :: row where
  "recompressed_record =
     \<lparr>row_id = 1, filename = ''photo.png'',
      filepath = ''stored_images/photo_compressed.jpeg''\<rparr>"

definition recompressed_world :: world where
  "recompressed_world =
     \<lparr>fs = fmap_of_list [(''stored_images/photo_compressed.jpeg'', ''grey pixels'')],
      undeletable = [],
      db = \<lparr>rows = [recompressed_record], seq = 1\<rparr>,
      images = [], ui = []\<rparr>"

section \<open>Properties\<close>

subsection \<open>The collision loop ends\<close>

lemma str_nonempty: "str n \<noteq> []"
  by (subst str.simps) simp

lemma digit_inj: "a < 10 \<Longrightarrow> b < 10 \<Longrightarrow> ''0123456789'' ! a = ''0123456789'' ! b \<Longrightarrow> a = b"
proof -
  assume a: "a < 10" and b: "b < 10" and e: "''0123456789'' ! a = ''0123456789'' ! b"
  have d: "distinct ''0123456789''" by simp
  have "length ''0123456789'' = 10" by simp
  with a b d e show "a = b" by (metis nth_eq_iff_index_eq)
qed

lemma str_inj: "str m = str n \<Longrightarrow> m = n"
proof (induction m arbitrary: n rule: str.induct)
  case (1 m)
  show ?case
  proof (cases "m < 10")
    case True
    note m = this
    show ?thesis
    proof (cases "n < 10")
      case True
      from "1.prems" m True have "''0123456789'' ! m = ''0123456789'' ! n"
        by (simp add: str.simps [of m] str.simps [of n])
      with m True show ?thesis by (rule digit_inj)
    next
      case False
      from "1.prems" m False have "str (n div 10) = []"
        by (simp add: str.simps [of m] str.simps [of n])
      with str_nonempty show ?thesis by blast
    qed
  next
    case False
    note m = this
    show ?thesis
    proof (cases "n < 10")
      case True
      from "1.prems" m True have "str (m div 10) = []"
        by (simp add: str.simps [of m] str.simps [of n])
      with str_nonempty show ?thesis by blast
    next
      case False
      from "1.prems" m False
      have e: "str (m div 10) = str (n div 10)"
        and d: "''0123456789'' ! (m mod 10) = ''0123456789'' ! (n mod 10)"
        by (simp_all add: str.simps [of m] str.simps [of n])
      from "1.IH" [OF m e] have q: "m div 10 = n div 10" .
      have "m mod 10 = n mod 10" by (rule digit_inj [OF _ _ d]) simp_all
      with q show ?thesis by (metis div_mult_mod_eq)
    qed
  qed
qed

lemma suffixed_inj: "suffixed base ext i = suffixed base ext j \<Longrightarrow> i = j"
  by (cases base) (auto simp: suffixed_def join_def IMAGES_DIR_def dest: str_inj split: if_splits)

lemma finite_suffixes: "finite {j. suffixed base ext j \<in> fmdom' files}"
proof -
  have "inj (suffixed base ext)" by (rule injI) (rule suffixed_inj)
  then have "finite (suffixed base ext -` fmdom' files)"
    by (intro finite_vimageI) simp_all
  then show ?thesis by (simp add: vimage_def)
qed

lemma beyond_bound: "suffix_bound files base ext \<le> j \<Longrightarrow> \<not> path_exists files (suffixed base ext j)"
proof
  assume b: "suffix_bound files base ext \<le> j" and e: "path_exists files (suffixed base ext j)"
  from e have "j \<in> insert 0 {j. suffixed base ext j \<in> fmdom' files}"
    by (auto simp: path_exists_def fmdom'I)
  moreover have "finite (insert 0 {j. suffixed base ext j \<in> fmdom' files})"
    using finite_suffixes by simp
  ultimately have "j \<le> Max (insert 0 {j. suffixed base ext j \<in> fmdom' files})"
    by (rule Max_ge [rotated])
  with b show False by (simp add: suffix_bound_def)
qed

termination unique_target
proof (relation "measure (\<lambda>(files, base, ext, t, i).
          2 * (suffix_bound files base ext - i) + (if path_exists files t then 1 else 0))")
  show "wf (measure (\<lambda>(files, base, ext, t, i).
          2 * (suffix_bound files base ext - i) + (if path_exists files t then 1 else 0)))"
    by simp
next
  fix files :: "(string, string) fmap" and base ext target_path :: string and i :: nat
  assume e: "path_exists files target_path"
  show "((files, base, ext, suffixed base ext i, i + 1), (files, base, ext, target_path, i))
        \<in> measure (\<lambda>(files, base, ext, t, i).
          2 * (suffix_bound files base ext - i) + (if path_exists files t then 1 else 0))"
  proof (cases "i < suffix_bound files base ext")
    case True
    with e show ?thesis by auto
  next
    case False
    then have "\<not> path_exists files (suffixed base ext i)"
      by (intro beyond_bound) simp
    with e False show ?thesis by simp
  qed
qed

declare unique_target.simps [simp del]

subsection \<open>The table keeps its constraints\<close>

lemma fold_max_ge: "(s::nat) \<le> fold max xs s"
proof (induction xs arbitrary: s)
  case Nil
  show ?case by simp
next
  case (Cons x xs)
  have "s \<le> max x s" by simp
  also have "\<dots> \<le> fold max xs (max x s)" by (rule Cons.IH)
  finally show ?case by simp
qed

lemma fold_max_mem: "x \<in> set xs \<Longrightarrow> (x::nat) \<le> fold max xs s"
proof (induction xs arbitrary: s)
  case Nil
  then show ?case by simp
next
  case (Cons y ys)
  show ?case
  proof (cases "x = y")
    case True
    have "x \<le> max y s" using True by simp
    also have "\<dots> \<le> fold max ys (max y s)" by (rule fold_max_ge)
    finally show ?thesis by simp
  next
    case False
    with Cons.prems have "x \<in> set ys" by simp
    then show ?thesis by (simp add: Cons.IH)
  qed
qed

lemma next_id_fresh:
  "next_id d \<noteq> 0" "seq d < next_id d" "r \<in> set (rows d) \<Longrightarrow> row_id r < next_id d"
proof -
  show "next_id d \<noteq> 0" by (simp add: next_id_def)
  show "seq d < next_id d" using fold_max_ge [of "seq d" "map row_id (rows d)"]
    by (simp add: next_id_def)
  assume "r \<in> set (rows d)"
  then have "row_id r \<in> set (map row_id (rows d))" by simp
  from fold_max_mem [OF this, of "seq d"] show "row_id r < next_id d"
    by (simp add: next_id_def)
qed

lemma sql_insert_Inr:
  assumes "sql_insert d fname fpath = Inr (d', i)"
  shows "rows d' = rows d @ [\<lparr>row_id = i, filename = fname, filepath = fpath\<rparr>]"
    and "i = next_id d" and "seq d' = i"
    and "fpath \<notin> set (map filepath (rows d))"
  using assms by (auto simp: sql_insert_def Let_def list_ex_iff split: if_splits)

lemma sql_insert_Inl:
  "sql_insert d fname fpath = Inl e \<Longrightarrow> e = IntegrityError \<and> fpath \<in> set (map filepath (rows d))"
  by (auto simp: sql_insert_def Let_def list_ex_iff split: if_splits)

lemma sql_insert_ok:
  assumes ok: "db_ok d" and ins: "sql_insert d fname fpath = Inr (d', i)"
  shows "db_ok d'"
proof -
  note f = sql_insert_Inr [OF ins]
  have ids: "\<forall>r \<in> set (rows d). row_id r < i"
    using next_id_fresh(3) [of _ d] f(2) by simp
  have "distinct (map row_id (rows d'))"
    using ok ids by (auto simp: f(1) db_ok_def)
  moreover have "distinct (map filepath (rows d'))"
    using ok f(4) by (simp add: f(1) db_ok_def)
  moreover have "list_all (\<lambda>r. 0 < row_id r \<and> row_id r \<le> seq d') (rows d')"
    using ok ids next_id_fresh(1) [of d] f(2)
    by (auto simp: f(1) f(3) db_ok_def list_all_iff intro: less_imp_le)
  ultimately show ?thesis by (simp add: db_ok_def)
qed

lemma map_update_paths:
  "map filepath (map (\<lambda>r. if row_id r = i then r\<lparr>filepath := p\<rparr> else r) (rs :: row list)) =
   map (\<lambda>r. if row_id r = i then p else filepath r) rs"
  by (induction rs) auto

lemma map_update_ids:
  "map row_id (map (\<lambda>r. if row_id r = i then r\<lparr>filepath := p\<rparr> else r) (rs :: row list)) =
   map row_id rs"
  by (induction rs) auto

lemma distinct_update_paths:
  "distinct (map row_id (rs :: row list)) \<Longrightarrow> distinct (map filepath rs) \<Longrightarrow>
   \<not> list_ex (\<lambda>r. row_id r \<noteq> i \<and> filepath r = p) rs \<Longrightarrow>
   distinct (map (\<lambda>r. if row_id r = i then p else filepath r) rs)"
proof (induction rs)
  case Nil
  show ?case by simp
next
  case (Cons r rs)
  define g :: "row \<Rightarrow> string" where "g = (\<lambda>r. if row_id r = i then p else filepath r)"
  from Cons.prems have tl: "distinct (map g rs)"
    unfolding g_def by (intro Cons.IH) simp_all
  from Cons.prems(1) have nid: "row_id r \<notin> row_id ` set rs" by simp
  from Cons.prems(2) have npath: "filepath r \<notin> filepath ` set rs" by simp
  have "g x \<noteq> g r" if x: "x \<in> set rs" for x
  proof -
    from nid x have ids: "row_id x \<noteq> row_id r" by (metis imageI)
    from npath x have paths: "filepath x \<noteq> filepath r" by (metis imageI)
    from Cons.prems(3) x have fx: "row_id x = i \<or> filepath x \<noteq> p"
      by (auto simp: list_ex_iff)
    from Cons.prems(3) have fr: "row_id r = i \<or> filepath r \<noteq> p"
      by (auto simp: list_ex_iff)
    show ?thesis
    proof (cases "row_id r = i")
      case True
      with ids have c: "row_id x \<noteq> i" by simp
      with fx have "filepath x \<noteq> p" by simp
      with c True show ?thesis by (simp add: g_def)
    next
      case False
      with fr have "p \<noteq> filepath r" by auto
      with paths False show ?thesis by (simp add: g_def)
    qed
  qed
  then have "g r \<notin> g ` set rs" by (metis imageE)
  with tl have "distinct (map g (r # rs))" by simp
  then show ?case by (simp only: g_def)
qed

lemma map_update_absent:
  "\<not> list_ex (\<lambda>r. row_id r = i) (rs :: row list) \<Longrightarrow>
   map (\<lambda>r. if row_id r = i then r\<lparr>filepath := p\<rparr> else r) rs = rs"
  by (induction rs) auto

lemma sql_update_ok:
  assumes ok: "db_ok d" and upd: "sql_update d i p = Inr d'"
  shows "db_ok d'"
proof (cases "list_ex (\<lambda>r. row_id r = i) (rows d)")
  case False
  with upd have "d' = d" by (auto simp: sql_update_def map_update_absent)
  with ok show ?thesis by simp
next
  case True
  with upd have free: "\<not> list_ex (\<lambda>r. row_id r \<noteq> i \<and> filepath r = p) (rows d)"
    and d': "d' = d\<lparr>rows := map (\<lambda>r. if row_id r = i then r\<lparr>filepath := p\<rparr> else r) (rows d)\<rparr>"
    by (auto simp: sql_update_def split: if_splits)
  have "map filepath (rows d') = map (\<lambda>r. if row_id r = i then p else filepath r) (rows d)"
    unfolding d' using map_update_paths [of i p "rows d"] by simp
  moreover have "distinct (map (\<lambda>r. if row_id r = i then p else filepath r) (rows d))"
    using ok free by (intro distinct_update_paths) (simp_all add: db_ok_def)
  ultimately have "distinct (map filepath (rows d'))" by simp
  moreover have "map row_id (rows d') = map row_id (rows d)"
    unfolding d' using map_update_ids [of i p "rows d"] by simp
  then have "distinct (map row_id (rows d'))"
    using ok by (simp add: db_ok_def)
  moreover have "list_all (\<lambda>r. 0 < row_id r \<and> row_id r \<le> seq d') (rows d')"
    using ok by (auto simp: d' db_ok_def list_all_iff)
  ultimately show ?thesis by (simp add: db_ok_def)
qed

lemma sql_delete_ok: "db_ok d \<Longrightarrow> db_ok (sql_delete d i)"
  by (auto simp: db_ok_def sql_delete_def list_all_iff distinct_map_filter)

subsection \<open>The record store\<close>

text \<open>
  C6 (amended). \<^verbatim>\<open>update_image_path\<close> and \<^verbatim>\<open>delete_image\<close> have no
  \<^verbatim>\<open>NotFound\<close>: called with an id that no record has, each returns normally and
  leaves the state as it was. \<^verbatim>\<open>delete_image\<close> always returns normally, removes the
  records with that id and touches neither the files nor anything else of the
  filesystem.
\<close>

theorem unknown_id_is_no_op:
  "(\<not> list_ex (\<lambda>r. row_id r = i) (rows (db w)) \<longrightarrow>
      update_image_path w i p = Inr w \<and> delete_image w i = Inr w) \<and>
   (\<exists>w'. delete_image w j = Inr w' \<and> fs w' = fs w \<and> undeletable w' = undeletable w \<and>
      rows (db w') = filter (\<lambda>r. row_id r \<noteq> j) (rows (db w)))"
proof -
  have "update_image_path w i p = Inr w \<and> delete_image w i = Inr w"
    if a: "\<not> list_ex (\<lambda>r. row_id r = i) (rows (db w))"
  proof -
    from a have "filter (\<lambda>r. row_id r \<noteq> i) (rows (db w)) = rows (db w)"
      by (simp add: list_ex_iff)
    with a show ?thesis
      by (simp add: update_image_path_def delete_image_def sql_update_def sql_delete_def
          map_update_absent)
  qed
  moreover have "\<exists>w'. delete_image w j = Inr w' \<and> fs w' = fs w \<and>
      undeletable w' = undeletable w \<and>
      rows (db w') = filter (\<lambda>r. row_id r \<noteq> j) (rows (db w))"
    by (simp add: delete_image_def sql_delete_def)
  ultimately show ?thesis by blast
qed

theorem unknown_id_is_no_op_witness:
  "\<not> list_ex (\<lambda>r. row_id r = 7) (rows (db two_records_world)) \<and>
   update_image_path two_records_world 7 ''stored_images/x.png'' = Inr two_records_world \<and>
   delete_image two_records_world 7 = Inr two_records_world"
proof -
  have h: "\<not> list_ex (\<lambda>r. row_id r = 7) (rows (db two_records_world))"
    by (simp add: two_records_world_def)
  from unknown_id_is_no_op [of 7 two_records_world "''stored_images/x.png''" 7] h
  show ?thesis by blast
qed

text \<open>
  C6 as stated fails: with an unknown id both calls return without an error.
\<close>

theorem unknown_id_counterexample:
  "update_image_path two_records_world 7 ''stored_images/x.png'' = Inr two_records_world \<and>
   delete_image two_records_world 7 = Inr two_records_world"
  by (simp add: update_image_path_def delete_image_def sql_update_def sql_delete_def
      two_records_world_def)

text \<open>
  C7 (amended). \<^verbatim>\<open>update_image_path\<close> has no check of its own, but the
  \<^verbatim>\<open>UNIQUE\<close> column has: giving a record the path that another record holds raises
  \<^verbatim>\<open>IntegrityError\<close>, and whenever the call returns normally the table still has
  no two records with the same path.
\<close>

theorem update_image_path_keeps_paths_unique:
  assumes "db_ok (db w)"
  shows "(list_ex (\<lambda>r. row_id r = i) (rows (db w)) \<and>
          list_ex (\<lambda>r. row_id r \<noteq> i \<and> filepath r = p) (rows (db w)) \<longrightarrow>
            update_image_path w i p = Inl IntegrityError) \<and>
         (\<forall>w'. update_image_path w i p = Inr w' \<longrightarrow>
            db_ok (db w') \<and> distinct (map filepath (rows (db w'))))"
proof (intro conjI allI impI)
  assume "list_ex (\<lambda>r. row_id r = i) (rows (db w)) \<and>
          list_ex (\<lambda>r. row_id r \<noteq> i \<and> filepath r = p) (rows (db w))"
  then show "update_image_path w i p = Inl IntegrityError"
    by (simp add: update_image_path_def sql_update_def)
next
  fix w' assume u: "update_image_path w i p = Inr w'"
  then obtain d where d: "sql_update (db w) i p = Inr d" and w': "w' = w\<lparr>db := d\<rparr>"
    by (auto simp: update_image_path_def split: sum.splits)
  from sql_update_ok [OF assms d] w' show "db_ok (db w')" by simp
  then show "distinct (map filepath (rows (db w')))" by (simp add: db_ok_def)
qed

theorem update_image_path_keeps_paths_unique_witness:
  "db_ok (db two_records_world) \<and>
   update_image_path two_records_world 1 ''stored_images/photo.bmp'' = Inl IntegrityError \<and>
   update_image_path two_records_world 1 ''stored_images/z.png'' =
     Inr (two_records_world
            \<lparr>db := \<lparr>rows = [\<lparr>row_id = 1, filename = ''photo.png'',
                               filepath = ''stored_images/z.png''\<rparr>,
                             \<lparr>row_id = 2, filename = ''photo.bmp'',
                               filepath = ''stored_images/photo.bmp''\<rparr>],
                     seq = 2\<rparr>\<rparr>) \<and>
   db_ok (db (two_records_world
            \<lparr>db := \<lparr>rows = [\<lparr>row_id = 1, filename = ''photo.png'',
                               filepath = ''stored_images/z.png''\<rparr>,
                             \<lparr>row_id = 2, filename = ''photo.bmp'',
                               filepath = ''stored_images/photo.bmp''\<rparr>],
                     seq = 2\<rparr>\<rparr>))"
proof -
  have h: "db_ok (db two_records_world)"
    by (simp add: two_records_world_def db_ok_def)
  have e: "list_ex (\<lambda>r. row_id r = 1) (rows (db two_records_world)) \<and>
           list_ex (\<lambda>r. row_id r \<noteq> 1 \<and> filepath r = ''stored_images/photo.bmp'')
             (rows (db two_records_world))"
    by (simp add: two_records_world_def)
  have u: "update_image_path two_records_world 1 ''stored_images/z.png'' =
     Inr (two_records_world
            \<lparr>db := \<lparr>rows = [\<lparr>row_id = 1, filename = ''photo.png'',
                               filepath = ''stored_images/z.png''\<rparr>,
                             \<lparr>row_id = 2, filename = ''photo.bmp'',
                               filepath = ''stored_images/photo.bmp''\<rparr>],
                     seq = 2\<rparr>\<rparr>)"
    by code_simp
  note a = update_image_path_keeps_paths_unique
    [OF h, of 1 "''stored_images/photo.bmp''", THEN conjunct1, THEN mp, OF e]
  note b = update_image_path_keeps_paths_unique
    [OF h, of 1 "''stored_images/z.png''", THEN conjunct2, rule_format, OF u, THEN conjunct1]
  show ?thesis
    apply (rule conjI [OF h])
    apply (rule conjI [OF a])
    apply (rule conjI [OF u])
    apply (rule b)
    done
qed

text \<open>
  C7 as stated fails: the update to the other record's path does not succeed silently.
\<close>

theorem update_to_held_path_counterexample:
  "update_image_path two_records_world 1 ''stored_images/photo.bmp'' = Inl IntegrityError"
  by (simp add: update_image_path_def sql_update_def two_records_world_def)

subsection \<open>Bit depth\<close>

text \<open>
  C4 (amended). At bit depth 8 a source in mode RGB or RGBA is converted to RGB, three
  channels, and a source in any other mode is converted to L, one channel of grey; so an
  RGB source stays RGB and every single-channel source becomes L.
\<close>

theorem bit_depth_8_policy:
  "convert_mode 8 mode = Some (if mode = ''RGB'' \<or> mode = ''RGBA'' then ''RGB'' else ''L'') \<and>
   convert_bit_depth pil 8 img =
     pil_convert pil img
       (if pil_mode pil img = ''RGB'' \<or> pil_mode pil img = ''RGBA'' then ''RGB'' else ''L'') \<and>
   mode_bands ''RGB'' = Some 3 \<and> mode_bands ''L'' = Some 1 \<and>
   (mode_bands mode = Some 1 \<longrightarrow> convert_mode 8 mode = Some ''L'')"
proof -
  have a: "convert_mode 8 m = Some (if m = ''RGB'' \<or> m = ''RGBA'' then ''RGB'' else ''L'')" for m
    by (simp add: convert_mode_def)
  have b: "mode_bands ''RGB'' = Some 3" "mode_bands ''L'' = Some 1" "mode_bands ''RGBA'' = Some 4"
    by (simp_all add: mode_bands_def)
  have c: "convert_mode 8 mode = Some ''L''" if "mode_bands mode = Some 1"
    using that b by (auto simp: a)
  show ?thesis using a b c by (simp add: convert_bit_depth_def)
qed

theorem bit_depth_8_policy_witness:
  "mode_bands ''P'' = Some 1 \<and> convert_mode 8 ''P'' = Some ''L'' \<and>
   convert_mode 8 ''RGB'' = Some ''RGB''"
proof -
  have h: "mode_bands ''P'' = Some 1" by (simp add: mode_bands_def)
  from bit_depth_8_policy [of "''P''" toy_pil "(''P'', ''pixels'')"] h have "convert_mode 8 ''P'' = Some ''L''" by simp
  moreover from bit_depth_8_policy [of "''RGB''" toy_pil "(''RGB'', ''pixels'')"] have "convert_mode 8 ''RGB'' = Some ''RGB''"
    by simp
  ultimately show ?thesis using h by simp
qed

text \<open>
  C4 as stated fails: CMYK and YCbCr sources hold colour in several channels and are
  converted to single-channel grey.
\<close>

theorem bit_depth_8_cmyk_counterexample:
  "''CMYK'' \<in> set colour_modes \<and> mode_bands ''CMYK'' = Some 4 \<and>
   convert_mode 8 ''CMYK'' = Some ''L'' \<and>
   ''YCbCr'' \<in> set colour_modes \<and> mode_bands ''YCbCr'' = Some 3 \<and>
   convert_mode 8 ''YCbCr'' = Some ''L'' \<and> mode_bands ''L'' = Some 1"
  by (simp add: colour_modes_def mode_bands_def convert_mode_def)

subsection \<open>Ingestion\<close>

lemma unique_target_keep:
  "\<not> path_exists files t \<Longrightarrow> unique_target files base ext t i = t"
  by (simp add: unique_target.simps)

lemma unique_target_least:
  "path_exists files t \<Longrightarrow>
   \<exists>k\<ge>i. unique_target files base ext t i = suffixed base ext k \<and>
     \<not> path_exists files (suffixed base ext k) \<and>
     (\<forall>j. i \<le> j \<and> j < k \<longrightarrow> path_exists files (suffixed base ext j))"
proof (induction files base ext t i rule: unique_target.induct)
  case (1 files base ext t i)
  from "1.prems" have step:
    "unique_target files base ext t i = unique_target files base ext (suffixed base ext i) (i + 1)"
    by (simp add: unique_target.simps [of files base ext t i])
  show ?case
  proof (cases "path_exists files (suffixed base ext i)")
    case False
    then have "unique_target files base ext t i = suffixed base ext i"
      using step by (simp add: unique_target_keep)
    with False show ?thesis by auto
  next
    case True
    from "1.IH" [OF "1.prems" True] obtain k where k: "i + 1 \<le> k"
      "unique_target files base ext (suffixed base ext i) (i + 1) = suffixed base ext k"
      "\<not> path_exists files (suffixed base ext k)"
      "\<forall>j. i + 1 \<le> j \<and> j < k \<longrightarrow> path_exists files (suffixed base ext j)"
      by auto
    have "path_exists files (suffixed base ext j)" if j: "i \<le> j" "j < k" for j
    proof (cases "j = i")
      case True
      with \<open>path_exists files (suffixed base ext i)\<close> show ?thesis by simp
    next
      case False
      with j have "i + 1 \<le> j \<and> j < k" by simp
      with k(4) show ?thesis by simp
    qed
    with k step have "i \<le> k \<and> unique_target files base ext t i = suffixed base ext k \<and>
       \<not> path_exists files (suffixed base ext k) \<and>
       (\<forall>j. i \<le> j \<and> j < k \<longrightarrow> path_exists files (suffixed base ext j))"
      by simp
    then show ?thesis by (rule_tac x = k in exI)
  qed
qed

lemma unique_target_free: "\<not> path_exists files (unique_target files base ext t i)"
proof (cases "path_exists files t")
  case True
  from unique_target_least [OF this, of i base ext] show ?thesis by auto
next
  case False
  then show ?thesis by (simp add: unique_target_keep)
qed

lemma place_target_free: "\<not> path_exists (fs w) (place_target w f)"
  by (simp add: place_target_def Let_def split_def unique_target_free)

lemma set_basename: "CHR ''/'' \<notin> set (basename p)"
proof (cases "CHR ''/'' \<in> set p")
  case False
  then show ?thesis by (simp add: basename_def rfind_def)
next
  case True
  define n where "n = length (takeWhile (\<lambda>x. x \<noteq> CHR ''/'') (rev p))"
  have n: "n \<le> length p" unfolding n_def using length_takeWhile_le [of _ "rev p"] by simp
  then have "nat (int (length p) - int n - 1 + 1) = length p - n" by simp
  with True have "basename p = drop (length p - n) p"
    by (simp add: basename_def rfind_def n_def)
  also have "\<dots> = rev (take n (rev p))" using n by (simp add: rev_take)
  also have "take n (rev p) = takeWhile (\<lambda>x. x \<noteq> CHR ''/'') (rev p)"
    unfolding n_def by (rule takeWhile_eq_take [symmetric])
  finally have "set (basename p) = set (takeWhile (\<lambda>x. x \<noteq> CHR ''/'') (rev p))" by simp
  moreover have "CHR ''/'' \<notin> set (takeWhile (\<lambda>x. x \<noteq> CHR ''/'') (rev p))"
    using set_takeWhileD by fastforce
  ultimately show ?thesis by simp
qed

lemma set_splitext: "set (fst (splitext p)) \<subseteq> set p"
  by (auto simp: splitext_def Let_def dest: in_set_takeD)

lemma suffixed_name:
  "CHR ''/'' \<notin> set base \<Longrightarrow>
   suffixed base ext k = ''stored_images/'' @ base @ ''_'' @ str k @ ext"
  by (cases base) (auto simp: suffixed_def join_def IMAGES_DIR_def)

lemma copy2_keeps:
  "copy2 w f t = Inr w' \<Longrightarrow> \<not> path_exists (fs w) t \<Longrightarrow> fmlookup (fs w) p = Some c \<Longrightarrow>
   fmlookup (fs w') p = Some c"
  by (auto simp: copy2_def path_exists_def split: option.splits)

lemma copy2_Inr:
  "copy2 w f t = Inr w' \<Longrightarrow>
   fmlookup (fs w') t = fmlookup (fs w) f \<and> path_exists (fs w) f \<and> db w' = db w \<and> ui w' = ui w"
  by (auto simp: copy2_def path_exists_def split: option.splits)

lemma photo_example:
  "dropped_files [LocalFile ''/a/photo.png'', LocalFile ''/b/photo.png''] =
     [''/a/photo.png'', ''/b/photo.png'']"
  "fmlookup (fs (dropEvent [LocalFile ''/a/photo.png'', LocalFile ''/b/photo.png''] photo_world))
     ''stored_images/photo.png'' = Some ''old''"
  "fmlookup (fs (dropEvent [LocalFile ''/a/photo.png'', LocalFile ''/b/photo.png''] photo_world))
     ''stored_images/photo_1.png'' = Some ''first''"
  "fmlookup (fs (dropEvent [LocalFile ''/a/photo.png'', LocalFile ''/b/photo.png''] photo_world))
     ''stored_images/photo_2.png'' = Some ''second''"
  "map filepath (rows (db (dropEvent [LocalFile ''/a/photo.png'', LocalFile ''/b/photo.png'']
     photo_world))) = [''stored_images/photo_1.png'', ''stored_images/photo_2.png'']"
  by code_simp+

text \<open>
  C3. When \<^verbatim>\<open>stored_images/filename\<close> exists, the file is copied to
  \<^verbatim>\<open>stored_images/base_k.ext\<close> for the smallest \<open>k \<ge> 1\<close> whose name is free: every
  smaller suffix names an existing file. Without a collision the plain name is used. The
  loop is a total function, so the search ends for every finite set of files; the chosen
  path is never an existing one, and the copy leaves every file that was there as it was.
  Dropping two files named \<^verbatim>\<open>photo.png\<close> on a directory that holds
  \<^verbatim>\<open>photo.png\<close> gives \<^verbatim>\<open>photo.png\<close> (the old one), \<^verbatim>\<open>photo_1.png\<close> and
  \<^verbatim>\<open>photo_2.png\<close>.
\<close>

theorem collision_takes_smallest_free_suffix:
  "(path_exists (fs w) (join IMAGES_DIR (basename f)) \<longrightarrow>
     (\<exists>k\<ge>1. place_target w f =
          ''stored_images/'' @ fst (splitext (basename f)) @ ''_'' @ str k @
            snd (splitext (basename f)) \<and>
        (\<forall>j. 1 \<le> j \<and> j < k \<longrightarrow>
           path_exists (fs w) (''stored_images/'' @ fst (splitext (basename f)) @ ''_'' @ str j @
             snd (splitext (basename f)))))) \<and>
   (\<not> path_exists (fs w) (join IMAGES_DIR (basename f)) \<longrightarrow>
      place_target w f = join IMAGES_DIR (basename f)) \<and>
   \<not> path_exists (fs w) (place_target w f) \<and>
   (\<forall>w' p c. copy2 w f (place_target w f) = Inr w' \<and> fmlookup (fs w) p = Some c \<longrightarrow>
      fmlookup (fs w') p = Some c) \<and>
   fmlookup (fs (dropEvent [LocalFile ''/a/photo.png'', LocalFile ''/b/photo.png''] photo_world))
     ''stored_images/photo.png'' = Some ''old'' \<and>
   fmlookup (fs (dropEvent [LocalFile ''/a/photo.png'', LocalFile ''/b/photo.png''] photo_world))
     ''stored_images/photo_1.png'' = Some ''first'' \<and>
   fmlookup (fs (dropEvent [LocalFile ''/a/photo.png'', LocalFile ''/b/photo.png''] photo_world))
     ''stored_images/photo_2.png'' = Some ''second''"
proof -
  define base where "base = fst (splitext (basename f))"
  define ext where "ext = snd (splitext (basename f))"
  have pt: "place_target w f = unique_target (fs w) base ext (join IMAGES_DIR (basename f)) 1"
    by (simp add: place_target_def Let_def split_def base_def ext_def)
  have "CHR ''/'' \<notin> set base"
    using set_basename [of f] set_splitext [of "basename f"] unfolding base_def by auto
  then have nm: "suffixed base ext k = ''stored_images/'' @ base @ ''_'' @ str k @ ext" for k
    by (rule suffixed_name)
  have a: "\<exists>k\<ge>1. place_target w f = ''stored_images/'' @ base @ ''_'' @ str k @ ext \<and>
        (\<forall>j. 1 \<le> j \<and> j < k \<longrightarrow>
           path_exists (fs w) (''stored_images/'' @ base @ ''_'' @ str j @ ext))"
    if "path_exists (fs w) (join IMAGES_DIR (basename f))"
    using unique_target_least [OF that, of 1 base ext] unfolding pt nm by auto
  have b: "place_target w f = join IMAGES_DIR (basename f)"
    if "\<not> path_exists (fs w) (join IMAGES_DIR (basename f))"
    using that by (simp add: pt unique_target_keep)
  have c: "fmlookup (fs w') p = Some c"
    if "copy2 w f (place_target w f) = Inr w'" "fmlookup (fs w) p = Some c" for w' p c
    using that place_target_free [of w f] by (rule_tac copy2_keeps)
  from a b c place_target_free [of w f] photo_example(2-4) show ?thesis
    unfolding base_def ext_def by simp
qed


theorem collision_takes_smallest_free_suffix_witness:
  "path_exists (fs photo_world) (join IMAGES_DIR (basename ''/a/photo.png'')) \<and>
   (\<exists>k\<ge>1. place_target photo_world ''/a/photo.png'' =
          ''stored_images/'' @ fst (splitext (basename ''/a/photo.png'')) @ ''_'' @ str k @
            snd (splitext (basename ''/a/photo.png'')) \<and>
        (\<forall>j. 1 \<le> j \<and> j < k \<longrightarrow>
           path_exists (fs photo_world)
             (''stored_images/'' @ fst (splitext (basename ''/a/photo.png'')) @ ''_'' @ str j @
             snd (splitext (basename ''/a/photo.png''))))) \<and>
   \<not> path_exists (fs photo_world) (join IMAGES_DIR (basename ''/a/other.png'')) \<and>
   place_target photo_world ''/a/other.png'' = join IMAGES_DIR (basename ''/a/other.png'') \<and>
   copy2 photo_world ''/a/photo.png'' (place_target photo_world ''/a/photo.png'') =
     Inr (photo_world\<lparr>fs := fmupd ''stored_images/photo_1.png'' ''first'' (fs photo_world)\<rparr>) \<and>
   fmlookup (fs photo_world) ''stored_images/photo.png'' = Some ''old'' \<and>
   fmlookup
     (fs (photo_world\<lparr>fs := fmupd ''stored_images/photo_1.png'' ''first'' (fs photo_world)\<rparr>))
     ''stored_images/photo.png'' = Some ''old''"
proof -
  have h: "path_exists (fs photo_world) (join IMAGES_DIR (basename ''/a/photo.png''))"
    by code_simp
  have n: "\<not> path_exists (fs photo_world) (join IMAGES_DIR (basename ''/a/other.png''))"
    by code_simp
  have c: "copy2 photo_world ''/a/photo.png'' (place_target photo_world ''/a/photo.png'') =
     Inr (photo_world\<lparr>fs := fmupd ''stored_images/photo_1.png'' ''first'' (fs photo_world)\<rparr>)"
    by code_simp
  have l: "fmlookup (fs photo_world) ''stored_images/photo.png'' = Some ''old''"
    by code_simp
  note t = collision_takes_smallest_free_suffix [of photo_world "''/a/photo.png''",
      THEN conjunct1, THEN mp, OF h]
  note u = collision_takes_smallest_free_suffix [of photo_world "''/a/other.png''",
      THEN conjunct2, THEN conjunct1, THEN mp, OF n]
  note v = collision_takes_smallest_free_suffix [of photo_world "''/a/photo.png''",
      THEN conjunct2, THEN conjunct2, THEN conjunct2, THEN conjunct1, rule_format,
      OF conjI, OF c l]
  show ?thesis
    apply (rule conjI [OF h])
    apply (rule conjI [OF t])
    apply (rule conjI [OF n])
    apply (rule conjI [OF u])
    apply (rule conjI [OF c])
    apply (rule conjI [OF l])
    apply (rule v)
    done
qed

lemma add_image_None:
  "list_ex (\<lambda>r. filepath r = p) (rows (db w)) \<Longrightarrow> add_image w fname p = (w, None)"
  by (simp add: add_image_def sql_insert_def)

lemma add_image_result:
  assumes "add_image w fname p = (w', res)"
  shows "fs w' = fs w \<and> ui w' = ui w \<and>
         (res = None \<longrightarrow> w' = w) \<and>
         (\<forall>i. res = Some i \<longrightarrow> i \<noteq> 0 \<and>
            rows (db w') = rows (db w) @ [\<lparr>row_id = i, filename = fname, filepath = p\<rparr>]) \<and>
         (db_ok (db w) \<longrightarrow> db_ok (db w'))"
proof (cases "sql_insert (db w) fname p")
  case (Inl e)
  with assms show ?thesis by (auto simp: add_image_def)
next
  case (Inr a)
  obtain d i where a: "a = (d, i)" by (cases a)
  with Inr have ins: "sql_insert (db w) fname p = Inr (d, i)" by simp
  with assms have w': "w' = w\<lparr>db := d\<rparr>" and res: "res = Some i"
    by (auto simp: add_image_def)
  note f = sql_insert_Inr [OF ins]
  from f(2) have "i \<noteq> 0" using next_id_fresh(1) [of "db w"] by simp
  moreover have "db_ok (db w) \<longrightarrow> db_ok (db w')"
    using sql_insert_ok [OF _ ins] w' by simp
  ultimately show ?thesis using w' res f(1) by simp
qed

lemma add_body_rows:
  assumes ok: "db_ok (db w)" and b: "add_body f (w, n) = ((w', n'), e)"
  shows "db_ok (db w') \<and> (\<exists>new. rows (db w') = rows (db w) @ new \<and> n' = n + length new) \<and>
         (\<forall>p c. fmlookup (fs w) p = Some c \<longrightarrow> fmlookup (fs w') p = Some c) \<and>
         ui w' = ui w"
proof (cases "copy2 w f (place_target w f)")
  case (Inl x)
  with b have "w' = w" "n' = n" by (auto simp: add_body_def)
  with ok show ?thesis by simp
next
  case (Inr w1)
  note c = copy2_Inr [OF Inr]
  obtain w2 res where ai: "add_image w1 (basename (place_target w f)) (place_target w f) = (w2, res)"
    by (cases "add_image w1 (basename (place_target w f)) (place_target w f)")
  note r = add_image_result [OF ai]
  from b Inr ai have w': "w' = w2"
    and n': "n' = (case res of None \<Rightarrow> n | Some i \<Rightarrow> if i \<noteq> 0 then n + 1 else n)"
    by (auto simp: add_body_def Let_def split: option.splits)
  from ok c have "db_ok (db w1)" by simp
  with r have ok': "db_ok (db w')" by (simp add: w')
  have keep: "\<forall>p c. fmlookup (fs w) p = Some c \<longrightarrow> fmlookup (fs w') p = Some c"
    using copy2_keeps [OF Inr place_target_free] r by (simp add: w')
  have "\<exists>new. rows (db w') = rows (db w) @ new \<and> n' = n + length new"
  proof (cases res)
    case None
    with r have "w2 = w1" by simp
    with c None show ?thesis by (simp add: w' n')
  next
    case (Some i)
    with r have "i \<noteq> 0"
      and "rows (db w2) = rows (db w1) @
             [\<lparr>row_id = i, filename = basename (place_target w f), filepath = place_target w f\<rparr>]"
      by simp_all
    with c Some show ?thesis by (simp add: w' n')
  qed
  with ok' keep r c show ?thesis by (simp add: w')
qed

lemma add_file_rows:
  assumes ok: "db_ok (db w)" and b: "add_file f (w, n) = (w', n')"
  shows "db_ok (db w') \<and> (\<exists>new. rows (db w') = rows (db w) @ new \<and> n' = n + length new) \<and>
         (\<forall>p c. fmlookup (fs w) p = Some c \<longrightarrow> fmlookup (fs w') p = Some c)"
proof -
  obtain w1 n1 e where body: "add_body f (w, n) = ((w1, n1), e)"
    by (metis prod.exhaust)
  from b body have "db w' = db w1 \<and> fs w' = fs w1 \<and> n' = n1"
    by (cases e) (auto simp: add_file_def)
  with add_body_rows [OF ok body] show ?thesis by simp
qed

lemma add_files_rows:
  "db_ok (db w) \<Longrightarrow> add_files files (w, n) = (w', n') \<Longrightarrow>
   db_ok (db w') \<and> (\<exists>new. rows (db w') = rows (db w) @ new \<and> n' = n + length new) \<and>
   (\<forall>p c. fmlookup (fs w) p = Some c \<longrightarrow> fmlookup (fs w') p = Some c)"
proof (induction files arbitrary: w n)
  case Nil
  then show ?case by simp
next
  case (Cons f files)
  obtain w1 n1 where s: "add_file f (w, n) = (w1, n1)" by (cases "add_file f (w, n)")
  note a = add_file_rows [OF Cons.prems(1) s]
  from Cons.prems(2) s have "add_files files (w1, n1) = (w', n')" by simp
  from Cons.IH [OF _ this] a have b: "db_ok (db w')"
    "\<exists>new. rows (db w') = rows (db w1) @ new \<and> n' = n1 + length new"
    "\<forall>p c. fmlookup (fs w1) p = Some c \<longrightarrow> fmlookup (fs w') p = Some c"
    by simp_all
  from a obtain new1 where n1: "rows (db w1) = rows (db w) @ new1" "n1 = n + length new1" by auto
  from b(2) obtain new2 where n2: "rows (db w') = rows (db w1) @ new2" "n' = n1 + length new2"
    by auto
  have "rows (db w') = rows (db w) @ (new1 @ new2) \<and> n' = n + length (new1 @ new2)"
    using n1 n2 by simp
  then have "\<exists>new. rows (db w') = rows (db w) @ new \<and> n' = n + length new" by (rule exI)
  with a b show ?case by simp
qed

text \<open>
  C1. After \<^verbatim>\<open>dropEvent\<close> the table is the old table followed by the new records,
  the number that the final message reports is the number of new records, and no two
  records of the table share a path.
\<close>

theorem accepted_count_is_records_created:
  assumes "db_ok (db w)"
  shows "\<exists>new. rows (db (dropEvent urls w)) = rows (db w) @ new \<and>
           distinct (map filepath (rows (db w) @ new)) \<and>
           (dropped_files urls \<noteq> [] \<longrightarrow>
              last (ui (dropEvent urls w)) = Images_added (length new)) \<and>
           (dropped_files urls = [] \<longrightarrow>
              new = [] \<and> last (ui (dropEvent urls w)) = No_images_dropped)"
proof (cases "dropped_files urls = []")
  case True
  then have "rows (db (dropEvent urls w)) = rows (db w) @ []"
    "last (ui (dropEvent urls w)) = No_images_dropped"
    by (simp_all add: dropEvent_def)
  with True assms show ?thesis by (simp add: db_ok_def)
next
  case False
  obtain w' n' where s: "add_files (dropped_files urls) (w, 0) = (w', n')"
    by (cases "add_files (dropped_files urls) (w, 0)")
  from add_files_rows [OF assms s] obtain new where
    n: "db_ok (db w')" "rows (db w') = rows (db w) @ new" "n' = length new" by auto
  from False s have "db (dropEvent urls w) = db w'"
    "last (ui (dropEvent urls w)) = Images_added n'"
    by (simp_all add: dropEvent_def refresh_def)
  with n False have "rows (db (dropEvent urls w)) = rows (db w) @ new \<and>
           distinct (map filepath (rows (db w) @ new)) \<and>
           (dropped_files urls \<noteq> [] \<longrightarrow>
              last (ui (dropEvent urls w)) = Images_added (length new)) \<and>
           (dropped_files urls = [] \<longrightarrow>
              new = [] \<and> last (ui (dropEvent urls w)) = No_images_dropped)"
    by (simp add: db_ok_def)
  then show ?thesis by (rule exI)
qed

theorem accepted_count_is_records_created_witness:
  "db_ok (db photo_world) \<and>
   (\<exists>new. rows (db (dropEvent [LocalFile ''/a/photo.png'', LocalFile ''/b/photo.png'']
              photo_world)) = rows (db photo_world) @ new \<and>
           distinct (map filepath (rows (db photo_world) @ new)) \<and>
           (dropped_files [LocalFile ''/a/photo.png'', LocalFile ''/b/photo.png''] \<noteq> [] \<longrightarrow>
              last (ui (dropEvent [LocalFile ''/a/photo.png'', LocalFile ''/b/photo.png'']
                photo_world)) = Images_added (length new)) \<and>
           (dropped_files [LocalFile ''/a/photo.png'', LocalFile ''/b/photo.png''] = [] \<longrightarrow>
              new = [] \<and>
              last (ui (dropEvent [LocalFile ''/a/photo.png'', LocalFile ''/b/photo.png'']
                photo_world)) = No_images_dropped))"
proof -
  have h: "db_ok (db photo_world)" by code_simp
  from h accepted_count_is_records_created [OF h] show ?thesis by (rule conjI)
qed

text \<open>
  C8 (amended). \<^verbatim>\<open>add_image\<close> with a path that a record already holds returns
  \<^verbatim>\<open>None\<close> and changes nothing. In \<^verbatim>\<open>dropEvent\<close> the file is then not counted
  and the copy just made stays on disk; it lies at the path of the record that already
  holds it, so that record points to it.
\<close>

theorem duplicate_path_is_not_counted:
  assumes dup: "list_ex (\<lambda>r. filepath r = p) (rows (db w))"
  shows "add_image w fname p = (w, None) \<and>
         (place_target w f = p \<and> fmlookup (fs w) f = Some data \<longrightarrow>
            add_file f (w, n) = (w\<lparr>fs := fmupd p data (fs w)\<rparr>, n) \<and>
            fmlookup (fs (fst (add_file f (w, n)))) p = Some data \<and>
            list_ex (\<lambda>r. filepath r = p) (rows (db (fst (add_file f (w, n))))))"
proof -
  have a: "add_image w' fname' p = (w', None)" if "db w' = db w" for w' fname'
    using dup that by (simp add: add_image_None)
  have "add_file f (w, n) = (w\<lparr>fs := fmupd p data (fs w)\<rparr>, n)"
    if "place_target w f = p" "fmlookup (fs w) f = Some data"
    using that a [of "w\<lparr>fs := fmupd p data (fs w)\<rparr>"]
    by (simp add: add_file_def add_body_def copy2_def)
  with a [of w] dup show ?thesis by simp
qed

theorem duplicate_path_is_not_counted_witness:
  "list_ex (\<lambda>r. filepath r = ''stored_images/a.png'') (rows (db orphan_world)) \<and>
   place_target orphan_world ''/home/u/a.png'' = ''stored_images/a.png'' \<and>
   fmlookup (fs orphan_world) ''/home/u/a.png'' = Some ''new'' \<and>
   add_image orphan_world ''a.png'' ''stored_images/a.png'' = (orphan_world, None) \<and>
   add_file ''/home/u/a.png'' (orphan_world, 0) =
     (orphan_world\<lparr>fs := fmupd ''stored_images/a.png'' ''new'' (fs orphan_world)\<rparr>, 0)"
proof -
  have h1: "list_ex (\<lambda>r. filepath r = ''stored_images/a.png'') (rows (db orphan_world))"
    by code_simp
  have h2: "place_target orphan_world ''/home/u/a.png'' = ''stored_images/a.png''"
    by code_simp
  have h3: "fmlookup (fs orphan_world) ''/home/u/a.png'' = Some ''new''"
    by code_simp
  from duplicate_path_is_not_counted [OF h1, of "''a.png''" "''/home/u/a.png''" "''new''" 0]
    h1 h2 h3
  show ?thesis by simp
qed

text \<open>
  C8 as stated fails in its last part: the copy that stays on disk is the file that the
  existing record points to.
\<close>

theorem orphan_copy_counterexample:
  "ui (dropEvent [LocalFile ''/home/u/a.png''] orphan_world) = [Images_added 0] \<and>
   rows (db (dropEvent [LocalFile ''/home/u/a.png''] orphan_world)) = rows (db orphan_world) \<and>
   fmlookup (fs orphan_world) ''stored_images/a.png'' = None \<and>
   fmlookup (fs (dropEvent [LocalFile ''/home/u/a.png''] orphan_world)) ''stored_images/a.png'' =
     Some ''new'' \<and>
   ''stored_images/a.png''
     \<in> set (map filepath (rows (db (dropEvent [LocalFile ''/home/u/a.png''] orphan_world))))"
  by code_simp

subsection \<open>Compression\<close>

lemma remove_quietly_keeps:
  "db (remove_quietly w p) = db w" "ui (remove_quietly w p) = ui w"
  "undeletable (remove_quietly w p) = undeletable w"
  by (simp_all add: remove_quietly_def os_remove_def)

lemma remove_quietly_fs:
  "fmlookup (fs (remove_quietly w p)) q =
     (if q = p \<and> p \<notin> set (undeletable w) then None else fmlookup (fs w) q)"
  by (auto simp: remove_quietly_def os_remove_def path_exists_def)

lemma update_image_path_Inr:
  "update_image_path w i p = Inr w' \<Longrightarrow>
   fs w' = fs w \<and> ui w' = ui w \<and> undeletable w' = undeletable w \<and>
   sql_update (db w) i p = Inr (db w')"
  by (auto simp: update_image_path_def split: sum.splits)

lemma update_image_path_Inl:
  "update_image_path w i p = Inl e \<Longrightarrow> sql_update (db w) i p = Inl e \<and> e = IntegrityError"
  by (auto simp: update_image_path_def sql_update_def split: sum.splits if_splits)

lemma write_partial_keeps:
  "db (write_partial w p left) = db w" "ui (write_partial w p left) = ui w"
  "undeletable (write_partial w p left) = undeletable w"
  by (simp_all add: write_partial_def split: option.splits)

lemma write_partial_fs:
  "fmlookup (fs (write_partial w p left)) q = (if q = p then left else fmlookup (fs w) q)"
  by (auto simp: write_partial_def split: option.splits)

lemma compress_body_fail:
  "image_open pil w (filepath r) = Inl e \<Longrightarrow> compress_body pil opts r w = (w, Some e)"
  "image_open pil w (filepath r) = Inr img \<Longrightarrow>
   convert_bit_depth pil (bit_depth opts) img = None \<Longrightarrow>
   compress_body pil opts r w = (w, Some ConvertError)"
  "image_open pil w (filepath r) = Inr img \<Longrightarrow>
   convert_bit_depth pil (bit_depth opts) img = Some img' \<Longrightarrow>
   pil_save pil img' (format opts) (save_kwargs opts) = None \<Longrightarrow>
   compress_body pil opts r w =
     (write_partial w (new_filepath opts (filename r))
        (pil_save_failed pil img' (format opts) (save_kwargs opts)
           (fmlookup (fs w) (new_filepath opts (filename r)))),
      Some EncodeError)"
  by (simp_all add: compress_body_def)

lemma compress_body_same_path:
  "image_open pil w (filepath r) = Inr img \<Longrightarrow>
   convert_bit_depth pil (bit_depth opts) img = Some img' \<Longrightarrow>
   pil_save pil img' (format opts) (save_kwargs opts) = Some data \<Longrightarrow>
   filepath r = new_filepath opts (filename r) \<Longrightarrow>
   compress_body pil opts r w =
     (w\<lparr>fs := fmupd (new_filepath opts (filename r)) data (fs w)\<rparr>, None)"
  by (simp add: compress_body_def)

lemma compress_body_new_path:
  assumes "image_open pil w (filepath r) = Inr img"
    and "convert_bit_depth pil (bit_depth opts) img = Some img'"
    and "pil_save pil img' (format opts) (save_kwargs opts) = Some data"
    and "filepath r \<noteq> new_filepath opts (filename r)"
  shows "db (fst (compress_body pil opts r w)) =
           (case sql_update (db w) (row_id r) (new_filepath opts (filename r)) of
              Inl e \<Rightarrow> db w | Inr d \<Rightarrow> d)"
    and "snd (compress_body pil opts r w) =
           (case sql_update (db w) (row_id r) (new_filepath opts (filename r)) of
              Inl e \<Rightarrow> Some e | Inr d \<Rightarrow> None)"
    and "fmlookup (fs (fst (compress_body pil opts r w))) q =
           (if q = filepath r \<and> filepath r \<notin> set (undeletable w) then None
            else if q = new_filepath opts (filename r) then Some data
            else fmlookup (fs w) q)"
    and "ui (fst (compress_body pil opts r w)) = ui w"
proof -
  define new where "new = new_filepath opts (filename r)"
  define w2 where "w2 = remove_quietly (w\<lparr>fs := fmupd new data (fs w)\<rparr>) (filepath r)"
  have body: "compress_body pil opts r w =
      (case update_image_path w2 (row_id r) new of
         Inl e \<Rightarrow> (w2, Some e) | Inr w3 \<Rightarrow> (w3, None))"
    unfolding w2_def new_def using assms by (simp add: compress_body_def Let_def)
  have w2: "db w2 = db w" "ui w2 = ui w"
    "fmlookup (fs w2) q =
       (if q = filepath r \<and> filepath r \<notin> set (undeletable w) then None
        else if q = new then Some data else fmlookup (fs w) q)"
    by (simp_all add: w2_def remove_quietly_keeps remove_quietly_fs)
  show "db (fst (compress_body pil opts r w)) =
           (case sql_update (db w) (row_id r) (new_filepath opts (filename r)) of
              Inl e \<Rightarrow> db w | Inr d \<Rightarrow> d)"
    unfolding body new_def [symmetric]
    by (cases "update_image_path w2 (row_id r) new")
      (use w2 in \<open>auto dest!: update_image_path_Inr update_image_path_Inl\<close>)
  show "snd (compress_body pil opts r w) =
           (case sql_update (db w) (row_id r) (new_filepath opts (filename r)) of
              Inl e \<Rightarrow> Some e | Inr d \<Rightarrow> None)"
    unfolding body new_def [symmetric]
    by (cases "update_image_path w2 (row_id r) new")
      (use w2 in \<open>auto dest!: update_image_path_Inr update_image_path_Inl\<close>)
  show "fmlookup (fs (fst (compress_body pil opts r w))) q =
           (if q = filepath r \<and> filepath r \<notin> set (undeletable w) then None
            else if q = new_filepath opts (filename r) then Some data
            else fmlookup (fs w) q)"
    unfolding body new_def [symmetric]
    by (cases "update_image_path w2 (row_id r) new")
      (use w2 in \<open>auto dest!: update_image_path_Inr\<close>)
  show "ui (fst (compress_body pil opts r w)) = ui w"
    unfolding body
    by (cases "update_image_path w2 (row_id r) new")
      (use w2 in \<open>auto dest!: update_image_path_Inr\<close>)
qed

text \<open>The four ways through the body.\<close>

lemma compress_body_cases:
  obtains (opened) e where "image_open pil w (filepath r) = Inl e"
  | (converted) img where "image_open pil w (filepath r) = Inr img"
      "convert_bit_depth pil (bit_depth opts) img = None"
  | (encoded) img img' where "image_open pil w (filepath r) = Inr img"
      "convert_bit_depth pil (bit_depth opts) img = Some img'"
      "pil_save pil img' (format opts) (save_kwargs opts) = None"
  | (saved) img img' data where "image_open pil w (filepath r) = Inr img"
      "convert_bit_depth pil (bit_depth opts) img = Some img'"
      "pil_save pil img' (format opts) (save_kwargs opts) = Some data"
proof (cases "image_open pil w (filepath r)")
  case (Inl e)
  then show ?thesis by (rule opened)
next
  case (Inr img)
  note o = this
  show ?thesis
  proof (cases "convert_bit_depth pil (bit_depth opts) img")
    case None
    with o show ?thesis by (rule converted)
  next
    case (Some img')
    note c = this
    show ?thesis
    proof (cases "pil_save pil img' (format opts) (save_kwargs opts)")
      case None
      with o c show ?thesis by (rule encoded)
    next
      case (Some data)
      with o c show ?thesis by (rule saved)
    qed
  qed
qed

lemma image_open_error:
  "image_open pil w p = Inl e \<Longrightarrow> e = FileNotFoundError \<or> e = UnidentifiedImageError"
  by (auto simp: image_open_def split: option.splits)

lemma compress_body_db_ok:
  assumes "db_ok (db w)"
  shows "db_ok (db (fst (compress_body pil opts r w)))"
proof (cases rule: compress_body_cases [where pil = pil and w = w and r = r and opts = opts])
  case (opened e)
  with assms show ?thesis by (simp add: compress_body_fail)
next
  case (converted img)
  with assms show ?thesis by (simp add: compress_body_fail)
next
  case (encoded img img')
  with assms show ?thesis by (simp add: compress_body_fail write_partial_keeps)
next
  case (saved img img' data)
  show ?thesis
  proof (cases "filepath r = new_filepath opts (filename r)")
    case True
    with saved assms show ?thesis by (simp add: compress_body_same_path)
  next
    case False
    note d = compress_body_new_path(1) [OF saved False]
    show ?thesis
    proof (cases "sql_update (db w) (row_id r) (new_filepath opts (filename r))")
      case (Inl e)
      with d assms show ?thesis by simp
    next
      case (Inr d')
      with d sql_update_ok [OF assms Inr] show ?thesis by simp
    qed
  qed
qed

lemma compress_one_db: "db (compress_one pil opts r w) = db (fst (compress_body pil opts r w))"
  by (simp add: compress_one_def split: prod.splits option.splits)

lemma compress_loop_db_ok:
  "db_ok (db w) \<Longrightarrow> db_ok (db (compress_loop pil opts rs w))"
proof (induction rs arbitrary: w)
  case Nil
  then show ?case by simp
next
  case (Cons r rs)
  from Cons.prems have "db_ok (db (compress_one pil opts r w))"
    by (simp add: compress_one_db compress_body_db_ok)
  then show ?case by (simp add: Cons.IH)
qed

lemma compress_all_db:
  "db (compress_all_images pil opts w) = db (compress_loop pil opts (get_all_images w) w)"
  by (cases "get_all_images w") (simp_all add: compress_all_images_def Let_def refresh_def)



lemma sql_update_Inl: "sql_update d i p = Inl e \<Longrightarrow> e = IntegrityError"
  by (auto simp: sql_update_def split: if_splits)

lemma early_error_keeps_state:
  assumes "snd (compress_body pil opts r w) = Some e"
    and "e \<noteq> IntegrityError" and "e \<noteq> EncodeError"
  shows "fst (compress_body pil opts r w) = w"
proof (cases rule: compress_body_cases [where pil = pil and w = w and r = r and opts = opts])
  case (opened e)
  then show ?thesis by (simp add: compress_body_fail)
next
  case (converted img)
  then show ?thesis by (simp add: compress_body_fail)
next
  case (encoded img img')
  with assms show ?thesis by (simp add: compress_body_fail)
next
  case (saved img img' data)
  show ?thesis
  proof (cases "filepath r = new_filepath opts (filename r)")
    case True
    with saved assms show ?thesis by (simp add: compress_body_same_path)
  next
    case False
    from compress_body_new_path(2) [OF saved False] assms show ?thesis
      by (auto split: sum.splits dest: sql_update_Inl)
  qed
qed

lemma error_keeps_table:
  assumes "snd (compress_body pil opts r w) = Some e"
  shows "db (fst (compress_body pil opts r w)) = db w"
proof (cases rule: compress_body_cases [where pil = pil and w = w and r = r and opts = opts])
  case (opened e)
  then show ?thesis by (simp add: compress_body_fail)
next
  case (converted img)
  then show ?thesis by (simp add: compress_body_fail)
next
  case (encoded img img')
  then show ?thesis by (simp add: compress_body_fail write_partial_keeps)
next
  case (saved img img' data)
  show ?thesis
  proof (cases "filepath r = new_filepath opts (filename r)")
    case True
    with saved assms show ?thesis by (simp add: compress_body_same_path)
  next
    case False
    from compress_body_new_path(1,2) [OF saved False] assms show ?thesis
      by (auto split: sum.splits)
  qed
qed

lemma encode_failure_continues:
  assumes "image_open pil w (filepath r) = Inr img"
    and "convert_bit_depth pil (bit_depth opts) img = Some img'"
    and "pil_save pil img' (format opts) (save_kwargs opts) = None"
  shows "snd (compress_body pil opts r w) = Some EncodeError"
    and "db (fst (compress_body pil opts r w)) = db w"
    and "q \<noteq> new_filepath opts (filename r) \<Longrightarrow>
         fmlookup (fs (fst (compress_body pil opts r w))) q = fmlookup (fs w) q"
    and "compress_loop pil opts (r # rs) w =
           compress_loop pil opts rs
             ((fst (compress_body pil opts r w))
                \<lparr>ui := ui w @ [Failed_to_compress (filename r) EncodeError]\<rparr>)"
  using assms
  by (simp_all add: compress_body_fail compress_one_def write_partial_keeps write_partial_fs)

lemma change_needs_encode:
  assumes "db (fst (compress_body pil opts r w)) \<noteq> db w \<or>
           (filepath r \<noteq> new_filepath opts (filename r) \<and>
            fmlookup (fs (fst (compress_body pil opts r w))) (filepath r) \<noteq>
              fmlookup (fs w) (filepath r))"
  shows "(\<exists>img img' data. image_open pil w (filepath r) = Inr img \<and>
            convert_bit_depth pil (bit_depth opts) img = Some img' \<and>
            pil_save pil img' (format opts) (save_kwargs opts) = Some data) \<and>
         filepath r \<noteq> new_filepath opts (filename r)"
proof (cases rule: compress_body_cases [where pil = pil and w = w and r = r and opts = opts])
  case (opened e)
  with assms show ?thesis by (simp add: compress_body_fail)
next
  case (converted img)
  with assms show ?thesis by (simp add: compress_body_fail)
next
  case (encoded img img')
  with assms show ?thesis
    by (auto simp: compress_body_fail write_partial_keeps write_partial_fs)
next
  case (saved img img' data)
  have "filepath r \<noteq> new_filepath opts (filename r)"
  proof
    assume "filepath r = new_filepath opts (filename r)"
    with saved assms show False by (simp add: compress_body_same_path)
  qed
  with saved show ?thesis by simp
qed

lemma sql_update_rows:
  assumes "\<not> list_ex (\<lambda>x. row_id x \<noteq> i \<and> filepath x = p) (rows d)"
  shows "sql_update d i p =
           Inr (d\<lparr>rows := map (\<lambda>x. if row_id x = i then x\<lparr>filepath := p\<rparr> else x) (rows d)\<rparr>)"
  using assms by (simp add: sql_update_def)

lemma path_becomes_new:
  assumes s: "image_open pil w (filepath r) = Inr img"
    "convert_bit_depth pil (bit_depth opts) img = Some img'"
    "pil_save pil img' (format opts) (save_kwargs opts) = Some data"
    "filepath r \<noteq> new_filepath opts (filename r)"
    and mem: "r \<in> set (rows (db w))"
    and free: "\<not> list_ex (\<lambda>x. row_id x \<noteq> row_id r \<and>
                  filepath x = new_filepath opts (filename r)) (rows (db w))"
  shows "snd (compress_body pil opts r w) = None \<and>
         rows (db (fst (compress_body pil opts r w))) =
           map (\<lambda>x. if row_id x = row_id r
                     then x\<lparr>filepath := new_filepath opts (filename r)\<rparr> else x)
             (rows (db w)) \<and>
         r\<lparr>filepath := new_filepath opts (filename r)\<rparr>
           \<in> set (rows (db (fst (compress_body pil opts r w))))"
proof -
  define g where "g = (\<lambda>x :: row. if row_id x = row_id r
       then x\<lparr>filepath := new_filepath opts (filename r)\<rparr> else x)"
  note u = sql_update_rows [OF free]
  note b = compress_body_new_path(1,2) [OF s]
  from b(2) u have n: "snd (compress_body pil opts r w) = None" by simp
  from b(1) u have rs: "rows (db (fst (compress_body pil opts r w))) = map g (rows (db w))"
    by (simp add: g_def)
  have "g r = r\<lparr>filepath := new_filepath opts (filename r)\<rparr>" by (simp add: g_def)
  moreover from mem have "g r \<in> set (map g (rows (db w)))" by simp
  ultimately have "r\<lparr>filepath := new_filepath opts (filename r)\<rparr>
      \<in> set (rows (db (fst (compress_body pil opts r w))))"
    using rs by simp
  with n rs show ?thesis by (simp add: g_def)
qed

text \<open>
  C5 (amended). When the encoder raises, the table is as it was, the failure is reported
  and the loop goes on with the next record; no file but the one at the output path is
  touched, so the original file is unchanged when the new path differs from the original
  one. When the two paths are equal the failed save may already have overwritten the
  original. An exception in decoding or conversion leaves the whole state as it was. The
  table changes, or the original file at a different path changes, only when decoding,
  conversion and encoding have succeeded and the new path differs from the original one.
  With equal paths a successful save only writes the file. With different paths the
  original file is gone unless its removal is refused, and then it stays; either way the
  update runs, and unless another record holds the new path the record's path becomes the
  new path.
\<close>

theorem record_changes_only_after_encode:
  "(\<forall>e. snd (compress_body pil opts r w) = Some e \<longrightarrow> e \<noteq> IntegrityError \<longrightarrow>
       e \<noteq> EncodeError \<longrightarrow> fst (compress_body pil opts r w) = w) \<and>
   (\<forall>e. snd (compress_body pil opts r w) = Some e \<longrightarrow>
       db (fst (compress_body pil opts r w)) = db w) \<and>
   (\<forall>img img'. image_open pil w (filepath r) = Inr img \<longrightarrow>
       convert_bit_depth pil (bit_depth opts) img = Some img' \<longrightarrow>
       pil_save pil img' (format opts) (save_kwargs opts) = None \<longrightarrow>
       snd (compress_body pil opts r w) = Some EncodeError \<and>
       db (fst (compress_body pil opts r w)) = db w \<and>
       (\<forall>q. q \<noteq> new_filepath opts (filename r) \<longrightarrow>
          fmlookup (fs (fst (compress_body pil opts r w))) q = fmlookup (fs w) q) \<and>
       (filepath r \<noteq> new_filepath opts (filename r) \<longrightarrow>
          fmlookup (fs (fst (compress_body pil opts r w))) (filepath r) =
            fmlookup (fs w) (filepath r)) \<and>
       compress_loop pil opts (r # rs) w =
         compress_loop pil opts rs
           ((fst (compress_body pil opts r w))
              \<lparr>ui := ui w @ [Failed_to_compress (filename r) EncodeError]\<rparr>)) \<and>
   (db (fst (compress_body pil opts r w)) \<noteq> db w \<or>
      (filepath r \<noteq> new_filepath opts (filename r) \<and>
       fmlookup (fs (fst (compress_body pil opts r w))) (filepath r) \<noteq>
         fmlookup (fs w) (filepath r)) \<longrightarrow>
      (\<exists>img img' data. image_open pil w (filepath r) = Inr img \<and>
          convert_bit_depth pil (bit_depth opts) img = Some img' \<and>
          pil_save pil img' (format opts) (save_kwargs opts) = Some data) \<and>
      filepath r \<noteq> new_filepath opts (filename r)) \<and>
   (\<forall>img img' data. image_open pil w (filepath r) = Inr img \<longrightarrow>
       convert_bit_depth pil (bit_depth opts) img = Some img' \<longrightarrow>
       pil_save pil img' (format opts) (save_kwargs opts) = Some data \<longrightarrow>
       filepath r = new_filepath opts (filename r) \<longrightarrow>
       compress_body pil opts r w =
         (w\<lparr>fs := fmupd (new_filepath opts (filename r)) data (fs w)\<rparr>, None)) \<and>
   (\<forall>img img' data. image_open pil w (filepath r) = Inr img \<longrightarrow>
       convert_bit_depth pil (bit_depth opts) img = Some img' \<longrightarrow>
       pil_save pil img' (format opts) (save_kwargs opts) = Some data \<longrightarrow>
       filepath r \<noteq> new_filepath opts (filename r) \<longrightarrow>
       fmlookup (fs (fst (compress_body pil opts r w))) (filepath r) =
         (if filepath r \<in> set (undeletable w) then fmlookup (fs w) (filepath r) else None) \<and>
       db (fst (compress_body pil opts r w)) =
         (case sql_update (db w) (row_id r) (new_filepath opts (filename r)) of
            Inl e \<Rightarrow> db w | Inr d \<Rightarrow> d) \<and>
       snd (compress_body pil opts r w) =
         (case sql_update (db w) (row_id r) (new_filepath opts (filename r)) of
            Inl e \<Rightarrow> Some e | Inr d \<Rightarrow> None) \<and>
       (r \<in> set (rows (db w)) \<longrightarrow>
        \<not> list_ex (\<lambda>x. row_id x \<noteq> row_id r \<and>
             filepath x = new_filepath opts (filename r)) (rows (db w)) \<longrightarrow>
        snd (compress_body pil opts r w) = None \<and>
        rows (db (fst (compress_body pil opts r w))) =
          map (\<lambda>x. if row_id x = row_id r
                    then x\<lparr>filepath := new_filepath opts (filename r)\<rparr> else x)
            (rows (db w)) \<and>
        r\<lparr>filepath := new_filepath opts (filename r)\<rparr>
          \<in> set (rows (db (fst (compress_body pil opts r w))))))"
proof (intro conjI allI impI)
  fix e assume "snd (compress_body pil opts r w) = Some e" "e \<noteq> IntegrityError"
    "e \<noteq> EncodeError"
  then show "fst (compress_body pil opts r w) = w" by (rule early_error_keeps_state)
next
  fix e assume "snd (compress_body pil opts r w) = Some e"
  then show "db (fst (compress_body pil opts r w)) = db w" by (rule error_keeps_table)
next
  fix img img'
  assume a: "image_open pil w (filepath r) = Inr img"
    "convert_bit_depth pil (bit_depth opts) img = Some img'"
    "pil_save pil img' (format opts) (save_kwargs opts) = None"
  note f = encode_failure_continues [OF a]
  show "snd (compress_body pil opts r w) = Some EncodeError" by (rule f(1))
  show "db (fst (compress_body pil opts r w)) = db w" by (rule f(2))
  show "compress_loop pil opts (r # rs) w =
         compress_loop pil opts rs
           ((fst (compress_body pil opts r w))
              \<lparr>ui := ui w @ [Failed_to_compress (filename r) EncodeError]\<rparr>)"
    by (rule f(4))
  {
    fix q assume "q \<noteq> new_filepath opts (filename r)"
    then show "fmlookup (fs (fst (compress_body pil opts r w))) q = fmlookup (fs w) q"
      by (rule f(3))
  }
  {
    assume "filepath r \<noteq> new_filepath opts (filename r)"
    then show "fmlookup (fs (fst (compress_body pil opts r w))) (filepath r) =
            fmlookup (fs w) (filepath r)"
      by (rule f(3))
  }
next
  assume a: "db (fst (compress_body pil opts r w)) \<noteq> db w \<or>
      (filepath r \<noteq> new_filepath opts (filename r) \<and>
       fmlookup (fs (fst (compress_body pil opts r w))) (filepath r) \<noteq>
         fmlookup (fs w) (filepath r))"
  from change_needs_encode [OF a]
  show "\<exists>img img' data. image_open pil w (filepath r) = Inr img \<and>
          convert_bit_depth pil (bit_depth opts) img = Some img' \<and>
          pil_save pil img' (format opts) (save_kwargs opts) = Some data"
    and "filepath r \<noteq> new_filepath opts (filename r)"
    by simp_all
next
  fix img img' data
  assume "image_open pil w (filepath r) = Inr img"
    "convert_bit_depth pil (bit_depth opts) img = Some img'"
    "pil_save pil img' (format opts) (save_kwargs opts) = Some data"
    "filepath r = new_filepath opts (filename r)"
  then show "compress_body pil opts r w =
         (w\<lparr>fs := fmupd (new_filepath opts (filename r)) data (fs w)\<rparr>, None)"
    by (rule compress_body_same_path)
next
  fix img img' data
  assume a: "image_open pil w (filepath r) = Inr img"
    "convert_bit_depth pil (bit_depth opts) img = Some img'"
    "pil_save pil img' (format opts) (save_kwargs opts) = Some data"
    "filepath r \<noteq> new_filepath opts (filename r)"
  note b = compress_body_new_path [OF a]
  from b(3) [of "filepath r"] a(4)
  show "fmlookup (fs (fst (compress_body pil opts r w))) (filepath r) =
         (if filepath r \<in> set (undeletable w) then fmlookup (fs w) (filepath r) else None)"
    by simp
  from b(1) show "db (fst (compress_body pil opts r w)) =
         (case sql_update (db w) (row_id r) (new_filepath opts (filename r)) of
            Inl e \<Rightarrow> db w | Inr d \<Rightarrow> d)" .
  from b(2) show "snd (compress_body pil opts r w) =
         (case sql_update (db w) (row_id r) (new_filepath opts (filename r)) of
            Inl e \<Rightarrow> Some e | Inr d \<Rightarrow> None)" .
  {
    assume c: "r \<in> set (rows (db w))"
      "\<not> list_ex (\<lambda>x. row_id x \<noteq> row_id r \<and>
             filepath x = new_filepath opts (filename r)) (rows (db w))"
    note p = path_becomes_new [OF a c]
    show "snd (compress_body pil opts r w) = None" by (rule p [THEN conjunct1])
    show "rows (db (fst (compress_body pil opts r w))) =
          map (\<lambda>x. if row_id x = row_id r
                    then x\<lparr>filepath := new_filepath opts (filename r)\<rparr> else x)
            (rows (db w))"
      by (rule p [THEN conjunct2, THEN conjunct1])
    show "r\<lparr>filepath := new_filepath opts (filename r)\<rparr>
          \<in> set (rows (db (fst (compress_body pil opts r w))))"
      by (rule p [THEN conjunct2, THEN conjunct2])
  }
qed

theorem record_changes_only_after_encode_witness:
  "image_open toy_pil two_records_world (filepath bmp_record) = Inr (''RGB'', ''bmp pixels'') \<and>
   convert_bit_depth toy_pil (bit_depth jpeg_opts) (''RGB'', ''bmp pixels'') =
     Some (''RGB'', ''bmp pixels'') \<and>
   pil_save toy_pil (''RGB'', ''bmp pixels'') (format jpeg_opts) (save_kwargs jpeg_opts) =
     Some ''JPEG RGB bmp pixels'' \<and>
   filepath bmp_record \<noteq> new_filepath jpeg_opts (filename bmp_record) \<and>
   bmp_record \<in> set (rows (db two_records_world)) \<and>
   \<not> list_ex (\<lambda>x. row_id x \<noteq> row_id bmp_record \<and>
        filepath x = new_filepath jpeg_opts (filename bmp_record))
      (rows (db two_records_world)) \<and>
   bmp_record\<lparr>filepath := new_filepath jpeg_opts (filename bmp_record)\<rparr>
     \<in> set (rows (db (fst (compress_body toy_pil jpeg_opts bmp_record two_records_world)))) \<and>
   fmlookup (fs (fst (compress_body toy_pil jpeg_opts bmp_record two_records_world)))
       (filepath bmp_record) =
     (if filepath bmp_record \<in> set (undeletable two_records_world)
      then fmlookup (fs two_records_world) (filepath bmp_record) else None) \<and>
   fmlookup (fs two_records_world) ''stored_images/photo.bmp'' = Some ''bmp pixels'' \<and>
   fmlookup (fs (fst (compress_body toy_pil jpeg_opts bmp_record two_records_world)))
     ''stored_images/photo.bmp'' = None \<and>
   map filepath (rows (db (fst (compress_body toy_pil jpeg_opts bmp_record two_records_world)))) =
     [''stored_images/photo.png'', ''stored_images/photo_compressed.jpeg''] \<and>
   db (fst (compress_body toy_pil jpeg_opts bmp_record two_records_world)) \<noteq>
     db two_records_world \<and>
   snd (compress_body toy_pil jpeg_opts missing_record three_records_world) =
     Some FileNotFoundError \<and>
   fst (compress_body toy_pil jpeg_opts missing_record three_records_world) =
     three_records_world \<and>
   image_open toy_pil locked_world (filepath photo_record) = Inr (''RGB'', ''png pixels'') \<and>
   convert_bit_depth toy_pil (bit_depth deep_opts) (''RGB'', ''png pixels'') =
     Some (''I;16'', ''png pixels'') \<and>
   pil_save toy_pil (''I;16'', ''png pixels'') (format deep_opts) (save_kwargs deep_opts) = None \<and>
   filepath photo_record \<noteq> new_filepath deep_opts (filename photo_record) \<and>
   snd (compress_body toy_pil deep_opts photo_record locked_world) = Some EncodeError \<and>
   db (fst (compress_body toy_pil deep_opts photo_record locked_world)) = db locked_world \<and>
   fmlookup (fs (fst (compress_body toy_pil deep_opts photo_record locked_world)))
     (filepath photo_record) = fmlookup (fs locked_world) (filepath photo_record) \<and>
   fmlookup (fs (fst (compress_body toy_pil jpeg_opts photo_record locked_world)))
       (filepath photo_record) =
     (if filepath photo_record \<in> set (undeletable locked_world)
      then fmlookup (fs locked_world) (filepath photo_record) else None) \<and>
   fmlookup (fs (fst (compress_body toy_pil jpeg_opts photo_record locked_world)))
     ''stored_images/photo.png'' = Some ''png pixels'' \<and>
   map filepath (rows (db (fst (compress_body toy_pil jpeg_opts photo_record locked_world)))) =
     [''stored_images/photo_compressed.jpeg'']"
proof -
  have s1: "image_open toy_pil two_records_world (filepath bmp_record) =
      Inr (''RGB'', ''bmp pixels'')"
    by code_simp
  have s2: "convert_bit_depth toy_pil (bit_depth jpeg_opts) (''RGB'', ''bmp pixels'') =
      Some (''RGB'', ''bmp pixels'')"
    by code_simp
  have s3: "pil_save toy_pil (''RGB'', ''bmp pixels'') (format jpeg_opts)
      (save_kwargs jpeg_opts) = Some ''JPEG RGB bmp pixels''"
    by code_simp
  have s4: "filepath bmp_record \<noteq> new_filepath jpeg_opts (filename bmp_record)"
    by code_simp
  have s5: "bmp_record \<in> set (rows (db two_records_world))" by code_simp
  have s6: "\<not> list_ex (\<lambda>x. row_id x \<noteq> row_id bmp_record \<and>
        filepath x = new_filepath jpeg_opts (filename bmp_record))
      (rows (db two_records_world))"
    by code_simp
  have e1: "fmlookup (fs two_records_world) ''stored_images/photo.bmp'' = Some ''bmp pixels''"
    by code_simp
  have e2: "fmlookup (fs (fst (compress_body toy_pil jpeg_opts bmp_record two_records_world)))
     ''stored_images/photo.bmp'' = None"
    by code_simp
  have e3: "map filepath
      (rows (db (fst (compress_body toy_pil jpeg_opts bmp_record two_records_world)))) =
     [''stored_images/photo.png'', ''stored_images/photo_compressed.jpeg'']"
    by code_simp
  have e4: "db (fst (compress_body toy_pil jpeg_opts bmp_record two_records_world)) \<noteq>
     db two_records_world"
    by code_simp
  have e5: "snd (compress_body toy_pil jpeg_opts missing_record three_records_world) =
      Some FileNotFoundError"
    by code_simp
  have e8: "FileNotFoundError \<noteq> IntegrityError" "FileNotFoundError \<noteq> EncodeError"
    by simp_all
  note early = record_changes_only_after_encode
    [where pil = toy_pil and opts = jpeg_opts and r = missing_record
       and w = three_records_world and rs = "[]",
     THEN conjunct1, rule_format, OF e5 e8]
  have h1: "image_open toy_pil locked_world (filepath photo_record) =
      Inr (''RGB'', ''png pixels'')"
    by code_simp
  have h2: "convert_bit_depth toy_pil (bit_depth deep_opts) (''RGB'', ''png pixels'') =
      Some (''I;16'', ''png pixels'')"
    by code_simp
  have h3: "pil_save toy_pil (''I;16'', ''png pixels'') (format deep_opts)
      (save_kwargs deep_opts) = None"
    by code_simp
  have h4: "convert_bit_depth toy_pil (bit_depth jpeg_opts) (''RGB'', ''png pixels'') =
      Some (''RGB'', ''png pixels'')"
    by code_simp
  have h5: "pil_save toy_pil (''RGB'', ''png pixels'') (format jpeg_opts)
      (save_kwargs jpeg_opts) = Some ''JPEG RGB png pixels''"
    by code_simp
  have h6: "filepath photo_record \<noteq> new_filepath jpeg_opts (filename photo_record)"
    by code_simp
  have h7: "filepath photo_record \<noteq> new_filepath deep_opts (filename photo_record)"
    by code_simp
  have e6: "fmlookup (fs (fst (compress_body toy_pil jpeg_opts photo_record locked_world)))
     ''stored_images/photo.png'' = Some ''png pixels''"
    by code_simp
  have e7: "map filepath
      (rows (db (fst (compress_body toy_pil jpeg_opts photo_record locked_world)))) =
     [''stored_images/photo_compressed.jpeg'']"
    by code_simp
  note t = record_changes_only_after_encode
    [where pil = toy_pil and opts = jpeg_opts and r = bmp_record and w = two_records_world
       and rs = "[]"]
  note last = t [THEN conjunct2, THEN conjunct2, THEN conjunct2, THEN conjunct2,
      THEN conjunct2, rule_format, OF s1 s2 s3 s4]
  note gone = last [THEN conjunct1]
  note pinned = last [THEN conjunct2, THEN conjunct2, THEN conjunct2, rule_format, OF s5 s6,
      THEN conjunct2, THEN conjunct2]
  note u = record_changes_only_after_encode
    [where pil = toy_pil and opts = deep_opts and r = photo_record and w = locked_world
       and rs = "[]"]
  note failed = u [THEN conjunct2, THEN conjunct2, THEN conjunct1, rule_format, OF h1 h2 h3]
  note f1 = failed [THEN conjunct1]
  note f2 = failed [THEN conjunct2, THEN conjunct1]
  note f3 = failed [THEN conjunct2, THEN conjunct2, THEN conjunct2, THEN conjunct1,
      rule_format, OF h7]
  note kept = record_changes_only_after_encode
    [where pil = toy_pil and opts = jpeg_opts and r = photo_record and w = locked_world
       and rs = "[]",
     THEN conjunct2, THEN conjunct2, THEN conjunct2, THEN conjunct2, THEN conjunct2,
     rule_format, OF h1 h4 h5 h6, THEN conjunct1]
  show ?thesis
    apply (rule conjI [OF s1])
    apply (rule conjI [OF s2])
    apply (rule conjI [OF s3])
    apply (rule conjI [OF s4])
    apply (rule conjI [OF s5])
    apply (rule conjI [OF s6])
    apply (rule conjI [OF pinned])
    apply (rule conjI [OF gone])
    apply (rule conjI [OF e1])
    apply (rule conjI [OF e2])
    apply (rule conjI [OF e3])
    apply (rule conjI [OF e4])
    apply (rule conjI [OF e5])
    apply (rule conjI [OF early])
    apply (rule conjI [OF h1])
    apply (rule conjI [OF h2])
    apply (rule conjI [OF h3])
    apply (rule conjI [OF h7])
    apply (rule conjI [OF f1])
    apply (rule conjI [OF f2])
    apply (rule conjI [OF f3])
    apply (rule conjI [OF kept])
    apply (rule conjI [OF e6])
    apply (rule e7)
    done
qed

text \<open>
  C5 as stated fails: the record's path is already the output path, the encoder raises,
  and the original file has been emptied by the failed save.
\<close>

theorem failed_encode_overwrites_counterexample:
  "filepath recompressed_record = new_filepath deep_opts (filename recompressed_record) \<and>
   image_open toy_pil recompressed_world (filepath recompressed_record) =
     Inr (''L'', ''grey pixels'') \<and>
   convert_bit_depth toy_pil (bit_depth deep_opts) (''L'', ''grey pixels'') =
     Some (''I;16'', ''grey pixels'') \<and>
   pil_save toy_pil (''I;16'', ''grey pixels'') (format deep_opts) (save_kwargs deep_opts) =
     None \<and>
   snd (compress_body toy_pil deep_opts recompressed_record recompressed_world) =
     Some EncodeError \<and>
   fmlookup (fs recompressed_world) (filepath recompressed_record) = Some ''grey pixels'' \<and>
   fmlookup (fs (fst (compress_body toy_pil deep_opts recompressed_record recompressed_world)))
     (filepath recompressed_record) = Some [] \<and>
   rows (db (fst (compress_body toy_pil deep_opts recompressed_record recompressed_world))) =
     [recompressed_record]"
  by code_simp

lemma lower_formats:
  "lower ''JPEG'' = ''jpeg''" "lower ''PNG'' = ''png''" "lower ''WEBP'' = ''webp''"
  "lower ''BMP'' = ''bmp''"
  by code_simp+

lemma new_filepath_plain:
  assumes "CHR ''/'' \<notin> set fname"
  shows "new_filepath opts fname =
           ''stored_images/'' @ fst (splitext fname) @ ''_compressed.'' @ lower (format opts)"
proof -
  from assms set_splitext [of fname] have "CHR ''/'' \<notin> set (fst (splitext fname))" by auto
  then show ?thesis
    by (cases "fst (splitext fname)") (auto simp: new_filepath_def join_def IMAGES_DIR_def)
qed

lemma saved_file_at_new_path:
  assumes "image_open pil w (filepath r) = Inr img"
    and "convert_bit_depth pil (bit_depth opts) img = Some img'"
    and "pil_save pil img' (format opts) (save_kwargs opts) = Some data"
  shows "fmlookup (fs (fst (compress_body pil opts r w))) (new_filepath opts (filename r)) =
           Some data"
proof (cases "filepath r = new_filepath opts (filename r)")
  case True
  with assms show ?thesis by (simp add: compress_body_same_path)
next
  case False
  from compress_body_new_path(3) [OF assms False, of "new_filepath opts (filename r)"] False
  show ?thesis by auto
qed

text \<open>
  C9. The encode parameters depend on the format and the quality only: JPEG carries the
  quality and \<^verbatim>\<open>optimize=True\<close>, WEBP the quality and \<^verbatim>\<open>method=6\<close>, PNG and BMP
  carry nothing, whatever the quality. The output path is the storage directory joined
  with the base of the record's file name, \<^verbatim>\<open>_compressed\<close>, a dot and the format in
  lower case, and that is where the encoded bytes are written.
\<close>

theorem encode_parameters_and_output_path:
  "(format opts = ''JPEG'' \<longrightarrow>
      save_kwargs opts = [(''quality'', PyInt (quality opts)), (''optimize'', PyBool True)]) \<and>
   (format opts = ''WEBP'' \<longrightarrow>
      save_kwargs opts = [(''quality'', PyInt (quality opts)), (''method'', PyInt 6)]) \<and>
   (format opts = ''PNG'' \<or> format opts = ''BMP'' \<longrightarrow>
      save_kwargs opts = [] \<and> save_kwargs (opts\<lparr>quality := q\<rparr>) = save_kwargs opts) \<and>
   save_kwargs (opts\<lparr>bit_depth := b\<rparr>) = save_kwargs opts \<and>
   new_filepath opts (filename r) =
     join IMAGES_DIR (fst (splitext (filename r)) @ ''_compressed'' @ ''.'' @ lower (format opts)) \<and>
   (CHR ''/'' \<notin> set (filename r) \<longrightarrow>
      new_filepath opts (filename r) =
        ''stored_images/'' @ fst (splitext (filename r)) @ ''_compressed.'' @ lower (format opts)) \<and>
   lower ''JPEG'' = ''jpeg'' \<and> lower ''PNG'' = ''png'' \<and> lower ''WEBP'' = ''webp'' \<and>
   lower ''BMP'' = ''bmp'' \<and>
   (\<forall>img img' data. image_open pil w (filepath r) = Inr img \<longrightarrow>
      convert_bit_depth pil (bit_depth opts) img = Some img' \<longrightarrow>
      pil_save pil img' (format opts) (save_kwargs opts) = Some data \<longrightarrow>
      fmlookup (fs (fst (compress_body pil opts r w))) (new_filepath opts (filename r)) =
        Some data)"
proof -
  have a: "format opts = ''JPEG'' \<longrightarrow>
      save_kwargs opts = [(''quality'', PyInt (quality opts)), (''optimize'', PyBool True)]"
    by (simp add: save_kwargs_def)
  have b: "format opts = ''WEBP'' \<longrightarrow>
      save_kwargs opts = [(''quality'', PyInt (quality opts)), (''method'', PyInt 6)]"
    by (simp add: save_kwargs_def)
  have c: "format opts = ''PNG'' \<or> format opts = ''BMP'' \<longrightarrow>
      save_kwargs opts = [] \<and> save_kwargs (opts\<lparr>quality := q\<rparr>) = save_kwargs opts"
    by (auto simp: save_kwargs_def)
  have d: "save_kwargs (opts\<lparr>bit_depth := b\<rparr>) = save_kwargs opts"
    by (simp add: save_kwargs_def)
  have e: "new_filepath opts (filename r) =
     join IMAGES_DIR (fst (splitext (filename r)) @ ''_compressed'' @ ''.'' @ lower (format opts))"
    by (simp add: new_filepath_def)
  have f: "CHR ''/'' \<notin> set (filename r) \<longrightarrow>
      new_filepath opts (filename r) =
        ''stored_images/'' @ fst (splitext (filename r)) @ ''_compressed.'' @ lower (format opts)"
    using new_filepath_plain [of "filename r" opts] by simp
  have g: "\<forall>img img' data. image_open pil w (filepath r) = Inr img \<longrightarrow>
      convert_bit_depth pil (bit_depth opts) img = Some img' \<longrightarrow>
      pil_save pil img' (format opts) (save_kwargs opts) = Some data \<longrightarrow>
      fmlookup (fs (fst (compress_body pil opts r w))) (new_filepath opts (filename r)) =
        Some data"
    using saved_file_at_new_path [of pil w r _ opts] by simp
  from a b c d e f g lower_formats show ?thesis by (intro conjI)
qed

theorem encode_parameters_and_output_path_witness:
  "format jpeg_opts = ''JPEG'' \<and>
   save_kwargs jpeg_opts =
     [(''quality'', PyInt (quality jpeg_opts)), (''optimize'', PyBool True)] \<and>
   format webp_opts = ''WEBP'' \<and>
   save_kwargs webp_opts = [(''quality'', PyInt (quality webp_opts)), (''method'', PyInt 6)] \<and>
   (format png_opts = ''PNG'' \<or> format png_opts = ''BMP'') \<and>
   save_kwargs png_opts = [] \<and>
   save_kwargs (png_opts\<lparr>quality := 1\<rparr>) = save_kwargs png_opts \<and>
   CHR ''/'' \<notin> set (filename photo_record) \<and>
   new_filepath jpeg_opts (filename photo_record) =
     ''stored_images/'' @ fst (splitext (filename photo_record)) @ ''_compressed.'' @
       lower (format jpeg_opts) \<and>
   new_filepath jpeg_opts (filename photo_record) = ''stored_images/photo_compressed.jpeg'' \<and>
   image_open toy_pil locked_world (filepath photo_record) = Inr (''RGB'', ''png pixels'') \<and>
   convert_bit_depth toy_pil (bit_depth jpeg_opts) (''RGB'', ''png pixels'') =
     Some (''RGB'', ''png pixels'') \<and>
   pil_save toy_pil (''RGB'', ''png pixels'') (format jpeg_opts) (save_kwargs jpeg_opts) =
     Some ''JPEG RGB png pixels'' \<and>
   fmlookup (fs (fst (compress_body toy_pil jpeg_opts photo_record locked_world)))
     (new_filepath jpeg_opts (filename photo_record)) = Some ''JPEG RGB png pixels''"
proof -
  have h1: "format jpeg_opts = ''JPEG''" by code_simp
  have h2: "CHR ''/'' \<notin> set (filename photo_record)" by code_simp
  have h3: "new_filepath jpeg_opts (filename photo_record) =
      ''stored_images/photo_compressed.jpeg''"
    by code_simp
  have h4: "format webp_opts = ''WEBP''" by code_simp
  have h5: "format png_opts = ''PNG'' \<or> format png_opts = ''BMP''" by code_simp
  have h6: "image_open toy_pil locked_world (filepath photo_record) =
      Inr (''RGB'', ''png pixels'')"
    by code_simp
  have h7: "convert_bit_depth toy_pil (bit_depth jpeg_opts) (''RGB'', ''png pixels'') =
      Some (''RGB'', ''png pixels'')"
    by code_simp
  have h8: "pil_save toy_pil (''RGB'', ''png pixels'') (format jpeg_opts)
      (save_kwargs jpeg_opts) = Some ''JPEG RGB png pixels''"
    by code_simp
  note t = encode_parameters_and_output_path
    [where opts = jpeg_opts and r = photo_record and pil = toy_pil and w = locked_world
       and q = 1 and b = 1]
  note a = t [THEN conjunct1, rule_format, OF h1]
  note b = t [THEN conjunct2, THEN conjunct2, THEN conjunct2, THEN conjunct2, THEN conjunct2,
      THEN conjunct1, rule_format, OF h2]
  note c = encode_parameters_and_output_path
    [where opts = webp_opts and r = photo_record and pil = toy_pil and w = locked_world
       and q = 1 and b = 1, THEN conjunct2, THEN conjunct1, rule_format, OF h4]
  note d = encode_parameters_and_output_path
    [where opts = png_opts and r = photo_record and pil = toy_pil and w = locked_world
       and q = 1 and b = 1, THEN conjunct2, THEN conjunct2, THEN conjunct1, rule_format, OF h5]
  note e = t [THEN conjunct2, THEN conjunct2, THEN conjunct2, THEN conjunct2, THEN conjunct2,
      THEN conjunct2, THEN conjunct2, THEN conjunct2, THEN conjunct2, THEN conjunct2,
      rule_format, OF h6 h7 h8]
  show ?thesis
    apply (rule conjI [OF h1])
    apply (rule conjI [OF a])
    apply (rule conjI [OF h4])
    apply (rule conjI [OF c])
    apply (rule conjI [OF h5])
    apply (rule conjI [OF d [THEN conjunct1]])
    apply (rule conjI [OF d [THEN conjunct2]])
    apply (rule conjI [OF h2])
    apply (rule conjI [OF b])
    apply (rule conjI [OF h3])
    apply (rule conjI [OF h6])
    apply (rule conjI [OF h7])
    apply (rule conjI [OF h8])
    apply (rule e)
    done
qed

lemma same_base_same_output:
  "fst (splitext f1) = fst (splitext f2) \<Longrightarrow> new_filepath opts f1 = new_filepath opts f2"
  by (simp add: new_filepath_def)

lemma held_path_is_rejected:
  assumes s: "image_open pil w (filepath r) = Inr img"
    "convert_bit_depth pil (bit_depth opts) img = Some img'"
    "pil_save pil img' (format opts) (save_kwargs opts) = Some data"
    "filepath r \<noteq> new_filepath opts (filename r)"
    and own: "list_ex (\<lambda>x. row_id x = row_id r) (rows (db w))"
    and other: "list_ex (\<lambda>x. row_id x \<noteq> row_id r \<and>
                  filepath x = new_filepath opts (filename r)) (rows (db w))"
  shows "snd (compress_body pil opts r w) = Some IntegrityError \<and>
         db (fst (compress_body pil opts r w)) = db w \<and>
         fmlookup (fs (fst (compress_body pil opts r w))) (new_filepath opts (filename r)) =
           Some data \<and>
         fmlookup (fs (fst (compress_body pil opts r w))) (filepath r) =
           (if filepath r \<in> set (undeletable w) then fmlookup (fs w) (filepath r) else None)"
proof -
  from own other
  have u: "sql_update (db w) (row_id r) (new_filepath opts (filename r)) = Inl IntegrityError"
    by (simp add: sql_update_def)
  note b = compress_body_new_path [OF s]
  from b(3) [of "filepath r"] s(4)
  have "fmlookup (fs (fst (compress_body pil opts r w))) (filepath r) =
           (if filepath r \<in> set (undeletable w) then fmlookup (fs w) (filepath r) else None)"
    by simp
  moreover from b(3) [of "new_filepath opts (filename r)"] s(4)
  have "fmlookup (fs (fst (compress_body pil opts r w))) (new_filepath opts (filename r)) =
           Some data"
    by auto
  ultimately show ?thesis using b(1,2) u by simp
qed

text \<open>
  C10 (amended). File names with the same base get the same output path, and nothing in
  \<^verbatim>\<open>compress_all_images\<close> avoids that. When another record holds the output path,
  the encoder overwrites that file, the original file is removed unless that is refused,
  and the update of the path is rejected by the \<^verbatim>\<open>UNIQUE\<close> column: the body ends
  with \<^verbatim>\<open>IntegrityError\<close> and the table as it was. So after
  \<^verbatim>\<open>compress_all_images\<close> no two records share a path.
\<close>

theorem compress_all_keeps_paths_unique:
  assumes "db_ok (db w)"
  shows "db_ok (db (compress_all_images pil opts w)) \<and>
    distinct (map filepath (rows (db (compress_all_images pil opts w)))) \<and>
    (fst (splitext f1) = fst (splitext f2) \<longrightarrow> new_filepath opts f1 = new_filepath opts f2) \<and>
    (\<forall>img img' data. image_open pil w (filepath r) = Inr img \<longrightarrow>
       convert_bit_depth pil (bit_depth opts) img = Some img' \<longrightarrow>
       pil_save pil img' (format opts) (save_kwargs opts) = Some data \<longrightarrow>
       filepath r \<noteq> new_filepath opts (filename r) \<longrightarrow>
       list_ex (\<lambda>x. row_id x = row_id r) (rows (db w)) \<longrightarrow>
       list_ex (\<lambda>x. row_id x \<noteq> row_id r \<and> filepath x = new_filepath opts (filename r))
         (rows (db w)) \<longrightarrow>
       snd (compress_body pil opts r w) = Some IntegrityError \<and>
       db (fst (compress_body pil opts r w)) = db w \<and>
       fmlookup (fs (fst (compress_body pil opts r w))) (new_filepath opts (filename r)) =
         Some data \<and>
       fmlookup (fs (fst (compress_body pil opts r w))) (filepath r) =
         (if filepath r \<in> set (undeletable w) then fmlookup (fs w) (filepath r) else None))"
proof -
  have a: "db_ok (db (compress_all_images pil opts w))"
    using assms by (simp add: compress_all_db compress_loop_db_ok)
  then have b: "distinct (map filepath (rows (db (compress_all_images pil opts w))))"
    by (simp add: db_ok_def)
  have c: "fst (splitext f1) = fst (splitext f2) \<longrightarrow>
      new_filepath opts f1 = new_filepath opts f2"
    by (rule impI) (rule same_base_same_output)
  have d: "\<forall>img img' data. image_open pil w (filepath r) = Inr img \<longrightarrow>
       convert_bit_depth pil (bit_depth opts) img = Some img' \<longrightarrow>
       pil_save pil img' (format opts) (save_kwargs opts) = Some data \<longrightarrow>
       filepath r \<noteq> new_filepath opts (filename r) \<longrightarrow>
       list_ex (\<lambda>x. row_id x = row_id r) (rows (db w)) \<longrightarrow>
       list_ex (\<lambda>x. row_id x \<noteq> row_id r \<and> filepath x = new_filepath opts (filename r))
         (rows (db w)) \<longrightarrow>
       snd (compress_body pil opts r w) = Some IntegrityError \<and>
       db (fst (compress_body pil opts r w)) = db w \<and>
       fmlookup (fs (fst (compress_body pil opts r w))) (new_filepath opts (filename r)) =
         Some data \<and>
       fmlookup (fs (fst (compress_body pil opts r w))) (filepath r) =
         (if filepath r \<in> set (undeletable w) then fmlookup (fs w) (filepath r) else None)"
  proof (intro allI impI)
    fix img img' data
    assume s: "image_open pil w (filepath r) = Inr img"
      "convert_bit_depth pil (bit_depth opts) img = Some img'"
      "pil_save pil img' (format opts) (save_kwargs opts) = Some data"
      "filepath r \<noteq> new_filepath opts (filename r)"
      "list_ex (\<lambda>x. row_id x = row_id r) (rows (db w))"
      "list_ex (\<lambda>x. row_id x \<noteq> row_id r \<and> filepath x = new_filepath opts (filename r))
         (rows (db w))"
    from held_path_is_rejected [OF s]
    show "snd (compress_body pil opts r w) = Some IntegrityError \<and>
       db (fst (compress_body pil opts r w)) = db w \<and>
       fmlookup (fs (fst (compress_body pil opts r w))) (new_filepath opts (filename r)) =
         Some data \<and>
       fmlookup (fs (fst (compress_body pil opts r w))) (filepath r) =
         (if filepath r \<in> set (undeletable w) then fmlookup (fs w) (filepath r) else None)" .
  qed
  show ?thesis
    apply (rule conjI [OF a])
    apply (rule conjI [OF b])
    apply (rule conjI [OF c])
    apply (rule d)
    done
qed

theorem compress_all_keeps_paths_unique_witness:
  "db_ok (db two_records_world) \<and>
   db_ok (db (compress_all_images toy_pil jpeg_opts two_records_world)) \<and>
   distinct (map filepath (rows (db (compress_all_images toy_pil jpeg_opts two_records_world)))) \<and>
   fst (splitext ''photo.png'') = fst (splitext ''photo.bmp'') \<and>
   new_filepath jpeg_opts ''photo.png'' = new_filepath jpeg_opts ''photo.bmp'' \<and>
   db_ok (db (compress_one toy_pil jpeg_opts bmp_record two_records_world)) \<and>
   list_ex (\<lambda>x. row_id x \<noteq> row_id photo_record \<and>
       filepath x = new_filepath jpeg_opts (filename photo_record))
     (rows (db (compress_one toy_pil jpeg_opts bmp_record two_records_world))) \<and>
   snd (compress_body toy_pil jpeg_opts photo_record
          (compress_one toy_pil jpeg_opts bmp_record two_records_world)) =
     Some IntegrityError \<and>
   db (fst (compress_body toy_pil jpeg_opts photo_record
          (compress_one toy_pil jpeg_opts bmp_record two_records_world))) =
     db (compress_one toy_pil jpeg_opts bmp_record two_records_world)"
proof -
  have h: "db_ok (db two_records_world)" by code_simp
  have e: "fst (splitext ''photo.png'') = fst (splitext ''photo.bmp'')" by code_simp
  have k: "db_ok (db (compress_one toy_pil jpeg_opts bmp_record two_records_world))"
    by code_simp
  have s1: "image_open toy_pil (compress_one toy_pil jpeg_opts bmp_record two_records_world)
      (filepath photo_record) = Inr (''RGB'', ''png pixels'')"
    by code_simp
  have s2: "convert_bit_depth toy_pil (bit_depth jpeg_opts) (''RGB'', ''png pixels'') =
      Some (''RGB'', ''png pixels'')"
    by code_simp
  have s3: "pil_save toy_pil (''RGB'', ''png pixels'') (format jpeg_opts)
      (save_kwargs jpeg_opts) = Some ''JPEG RGB png pixels''"
    by code_simp
  have s4: "filepath photo_record \<noteq> new_filepath jpeg_opts (filename photo_record)"
    by code_simp
  have s5: "list_ex (\<lambda>x. row_id x = row_id photo_record)
      (rows (db (compress_one toy_pil jpeg_opts bmp_record two_records_world)))"
    by code_simp
  have s6: "list_ex (\<lambda>x. row_id x \<noteq> row_id photo_record \<and>
       filepath x = new_filepath jpeg_opts (filename photo_record))
     (rows (db (compress_one toy_pil jpeg_opts bmp_record two_records_world)))"
    by code_simp
  note t = compress_all_keeps_paths_unique
    [OF h, where pil = toy_pil and opts = jpeg_opts and r = photo_record
       and ?f1.0 = "''photo.png''" and ?f2.0 = "''photo.bmp''"]
  note a = t [THEN conjunct1]
  note b = t [THEN conjunct2, THEN conjunct1]
  note c = t [THEN conjunct2, THEN conjunct2, THEN conjunct1, rule_format, OF e]
  note d = compress_all_keeps_paths_unique
    [OF k, where pil = toy_pil and opts = jpeg_opts and r = photo_record
       and ?f1.0 = "''photo.png''" and ?f2.0 = "''photo.bmp''",
     THEN conjunct2, THEN conjunct2, THEN conjunct2, rule_format, OF s1 s2 s3 s4 s5 s6]
  show ?thesis
    apply (rule conjI [OF h])
    apply (rule conjI [OF a])
    apply (rule conjI [OF b])
    apply (rule conjI [OF e])
    apply (rule conjI [OF c])
    apply (rule conjI [OF k])
    apply (rule conjI [OF s6])
    apply (rule conjI [OF d [THEN conjunct1]])
    apply (rule d [THEN conjunct2, THEN conjunct1])
    done
qed

text \<open>
  C10 as stated fails: for \<^verbatim>\<open>photo.png\<close> and \<^verbatim>\<open>photo.bmp\<close> the two records end
  with different paths, and the second update is reported as a failure.
\<close>

theorem colliding_outputs_counterexample:
  "new_filepath jpeg_opts ''photo.png'' = ''stored_images/photo_compressed.jpeg'' \<and>
   new_filepath jpeg_opts ''photo.bmp'' = ''stored_images/photo_compressed.jpeg'' \<and>
   map filepath (rows (db (compress_all_images toy_pil jpeg_opts two_records_world))) =
     [''stored_images/photo.png'', ''stored_images/photo_compressed.jpeg''] \<and>
   distinct (map filepath (rows (db (compress_all_images toy_pil jpeg_opts two_records_world)))) \<and>
   ui (compress_all_images toy_pil jpeg_opts two_records_world) =
     [Failed_to_compress ''photo.png'' IntegrityError, Compression_complete 2] \<and>
   fmlookup (fs (compress_all_images toy_pil jpeg_opts two_records_world))
     ''stored_images/photo.png'' = None"
  by code_simp












end
